theory Spec2Isabelle
  imports Complex_Main "HOL-Library.Char_ord" "HOL-Library.List_Lexorder"
begin

section \<open>Python values\<close>

text \<open>
  The optimisation task of \<^verbatim>\<open>turboworks/optimize.py\<close> handles three kinds of scalars:
  integers (unbounded), floats and strings (the categorical labels). Floats are modelled
  by the reals: every float expression of the source is read with exact arithmetic, so
  rounding is not part of the model. A Python list and a Python tuple with the same items
  are different values (\<^verbatim>\<open>(1,) == [1]\<close> is false), so a sequence carries its kind.
\<close>

datatype pyval = PInt int | PFloat real | PStr string

datatype pyseq = PList "pyval list" | PTuple "pyval list"

text \<open>
  The exceptions that the modelled code can raise. A ValueError and a TypeError carry the
  place that raised them, the others are raised by the interpreter or the libraries.
\<close>

datatype value_error = Infinite_dimension | Space_exhausted | Predictor_failed

datatype type_error = Bad_operand | Args_not_a_list | Kwargs_not_a_dict

datatype pyerr =
    IndexError | KeyError | NameError | AttributeError
  | TypeError type_error | ValueError value_error

fun seq_items :: "pyseq \<Rightarrow> pyval list" where
  "seq_items (PList xs) = xs"
| "seq_items (PTuple xs) = xs"

text \<open>
  Modelled from the spec: the module \<^verbatim>\<open>references\<close> with its table \<^verbatim>\<open>dtypes\<close> is not among
  the sources. The spec speaks of integer-typed and float-typed values and of non-numeric
  ones (the categorical labels); a value is discrete when it is an integer or a label.
\<close>

fun in_ints :: "pyval \<Rightarrow> bool" where
  "in_ints (PInt _) = True"
| "in_ints _ = False"

fun in_floats :: "pyval \<Rightarrow> bool" where
  "in_floats (PFloat _) = True"
| "in_floats _ = False"

fun in_others :: "pyval \<Rightarrow> bool" where
  "in_others (PStr _) = True"
| "in_others _ = False"

definition in_numbers :: "pyval \<Rightarrow> bool" where
  "in_numbers v = (in_ints v \<or> in_floats v)"

definition in_discrete :: "pyval \<Rightarrow> bool" where
  "in_discrete v = (in_ints v \<or> in_others v)"

text \<open>Python's \<^verbatim>\<open>==\<close>: an integer equals the float of the same value, a string only a string.\<close>

fun py_eq :: "pyval \<Rightarrow> pyval \<Rightarrow> bool" where
  "py_eq (PInt a) (PInt b) = (a = b)"
| "py_eq (PInt a) (PFloat b) = (real_of_int a = b)"
| "py_eq (PFloat a) (PInt b) = (a = real_of_int b)"
| "py_eq (PFloat a) (PFloat b) = (a = b)"
| "py_eq (PStr a) (PStr b) = (a = b)"
| "py_eq _ _ = False"

fun items_eq :: "pyval list \<Rightarrow> pyval list \<Rightarrow> bool" where
  "items_eq [] [] = True"
| "items_eq (a # as) (b # bs) = (py_eq a b \<and> items_eq as bs)"
| "items_eq _ _ = False"

fun seq_eq :: "pyseq \<Rightarrow> pyseq \<Rightarrow> bool" where
  "seq_eq (PList xs) (PList ys) = items_eq xs ys"
| "seq_eq (PTuple xs) (PTuple ys) = items_eq xs ys"
| "seq_eq _ _ = False"

text \<open>
  The ordering of Python 2, the language of the repository (\<^verbatim>\<open>manage_db.py\<close> uses the
  print statement): numbers compare by value, strings lexicographically by character code,
  and every number is below every string.
\<close>

fun py_lt :: "pyval \<Rightarrow> pyval \<Rightarrow> bool" where
  "py_lt (PInt a) (PInt b) = (a < b)"
| "py_lt (PInt a) (PFloat b) = (real_of_int a < b)"
| "py_lt (PFloat a) (PInt b) = (a < real_of_int b)"
| "py_lt (PFloat a) (PFloat b) = (a < b)"
| "py_lt (PStr a) (PStr b) = (a < b)"
| "py_lt (PStr _) _ = False"
| "py_lt _ (PStr _) = True"

definition py_gt :: "pyval \<Rightarrow> pyval \<Rightarrow> bool" where
  "py_gt a b = py_lt b a"

definition py_ge :: "pyval \<Rightarrow> pyval \<Rightarrow> bool" where
  "py_ge a b = (\<not> py_lt a b)"

section \<open>Discreteness and enumeration of a space\<close>

text \<open>
  A dimension is a tuple: \<^verbatim>\<open>(low, high)\<close> for a range, the labels for a categorical one.
  \<^verbatim>\<open>_is_discrete\<close> looks at the types of the first two entries of every dimension and
  leaves the loop at the first dimension that is not discrete; the \<^verbatim>\<open>or\<close> does not read
  \<^verbatim>\<open>dim[1]\<close> when \<^verbatim>\<open>dim[0]\<close> already decides.
\<close>

fun dim_is_discrete :: "pyval list \<Rightarrow> pyerr + bool" where
  "dim_is_discrete [] = Inl IndexError"
| "dim_is_discrete [d0] = (if \<not> in_discrete d0 then Inr False else Inl IndexError)"
| "dim_is_discrete (d0 # d1 # _) = Inr (in_discrete d0 \<and> in_discrete d1)"

fun is_discrete :: "pyval list list \<Rightarrow> pyerr + bool" where
  "is_discrete [] = Inr True"
| "is_discrete (d # dims) =
     (case dim_is_discrete d of
        Inl e \<Rightarrow> Inl e
      | Inr False \<Rightarrow> Inr False
      | Inr True \<Rightarrow> is_discrete dims)"

text \<open>
  One round of the loop of \<^verbatim>\<open>_calculate_discrete_space\<close>: an integer first entry makes the
  dimension \<^verbatim>\<open>range(lower, upper + 1)\<close>, which raises a TypeError unless \<^verbatim>\<open>upper\<close> is an
  integer too (\<^verbatim>\<open>range\<close> takes no float, and a string plus one is no value); a float first
  entry raises the ValueError of the source; anything else is taken as the list of labels.
\<close>

fun dimspace :: "pyval list \<Rightarrow> pyerr + pyval list" where
  "dimspace [] = Inl IndexError"
| "dimspace (PInt lower # rest) =
     (case rest of
        [] \<Rightarrow> Inl IndexError
      | PInt upper # _ \<Rightarrow> Inr (map PInt [lower..upper])
      | PFloat _ # _ \<Rightarrow> Inl (TypeError Bad_operand)
      | PStr _ # _ \<Rightarrow> Inl (TypeError Bad_operand))"
| "dimspace (PFloat v # rest) = Inl (ValueError Infinite_dimension)"
| "dimspace (PStr s # rest) = Inr (PStr s # rest)"

fun total_dimspace :: "pyval list list \<Rightarrow> pyerr + pyval list list" where
  "total_dimspace [] = Inr []"
| "total_dimspace (d # dims) =
     (case dimspace d of
        Inl e \<Rightarrow> Inl e
      | Inr ds \<Rightarrow>
          (case total_dimspace dims of
             Inl e \<Rightarrow> Inl e
           | Inr rest \<Rightarrow> Inr (ds # rest)))"

text \<open>
  \<^verbatim>\<open>itertools.product\<close>: nested loops over the pools, the rightmost pool advancing on every
  step.
\<close>

fun itertools_product :: "'a list list \<Rightarrow> 'a list list" where
  "itertools_product [] = [[]]"
| "itertools_product (pool # pools) =
     concat (map (\<lambda>x. map (\<lambda>p. x # p) (itertools_product pools)) pool)"

text \<open>
  The points of a space of one dimension are lists of one item, those of any other space
  are the tuples of the product.
\<close>

definition calculate_discrete_space :: "pyval list list \<Rightarrow> pyerr + pyseq list" where
  "calculate_discrete_space dims =
     (case total_dimspace dims of
        Inl e \<Rightarrow> Inl e
      | Inr pools \<Rightarrow>
          (if length dims = 1 then Inr (map (\<lambda>x. PList [x]) (hd pools))
           else Inr (map PTuple (itertools_product pools))))"

subsection \<open>What the enumeration is compared with\<close>

text \<open>
  A discrete dimension in the sense of the data model: a range with two integer bounds, or
  a non-empty tuple of pairwise different labels. Its size is the number of its values,
  and its values are numbered from 0 in declared order.
\<close>

fun discrete_dim :: "pyval list \<Rightarrow> bool" where
  "discrete_dim [PInt lo, PInt hi] = True"
| "discrete_dim (PStr s # rest) = (list_all in_others rest \<and> distinct (PStr s # rest))"
| "discrete_dim _ = False"

fun dim_size :: "pyval list \<Rightarrow> nat" where
  "dim_size [PInt lo, PInt hi] = nat (hi - lo + 1)"
| "dim_size d = length d"

fun dim_value :: "pyval list \<Rightarrow> nat \<Rightarrow> pyval" where
  "dim_value [PInt lo, PInt hi] i = PInt (lo + int i)"
| "dim_value d i = d ! i"

text \<open>
  The point number \<open>k\<close> of the Cartesian product in declared order, the last dimension
  running fastest: the digit of dimension \<open>j\<close> is \<open>k\<close> divided by the sizes of the
  dimensions after \<open>j\<close>, modulo the size of \<open>j\<close>.
\<close>

definition point_at :: "pyval list list \<Rightarrow> nat \<Rightarrow> pyval list" where
  "point_at dims k =
     map (\<lambda>j. dim_value (dims ! j)
                ((k div prod_list (map dim_size (drop (Suc j) dims))) mod dim_size (dims ! j)))
       [0..<length dims]"

section \<open>The collection and the duplicate check\<close>

text \<open>
  A document of the optimisation collection, with the fields of the persisted schema: each
  field is there or not. Arrays come back from the store as lists. The collection is the
  list of its documents in the order \<^verbatim>\<open>find()\<close> yields them.
\<close>

record doc =
  doc_id :: nat
  doc_x :: "pyval list option"
  doc_y :: "pyval option"
  doc_z :: "pyval list option"
  doc_x_new :: "pyval list option"
  doc_z_new :: "pyval list option"

text \<open>\<^verbatim>\<open>t in xs\<close> and \<^verbatim>\<open>xs.remove(t)\<close> for a list of points, both with Python's equality.\<close>

fun py_in :: "pyseq \<Rightarrow> pyseq list \<Rightarrow> bool" where
  "py_in t [] = False"
| "py_in t (e # es) = (seq_eq e t \<or> py_in t es)"

fun py_remove :: "pyseq \<Rightarrow> pyseq list \<Rightarrow> pyseq list" where
  "py_remove t [] = []"
| "py_remove t (e # es) = (if seq_eq e t then es else e # py_remove t es)"

text \<open>
  The loop of \<^verbatim>\<open>_dupe_check\<close> over the collection: \<^verbatim>\<open>doc['x']\<close> raises a KeyError on a
  document without \<^verbatim>\<open>x\<close>; the tuple of the stored list is looked up among the available
  points and its first occurrence removed.
\<close>

fun remove_evaluated :: "doc list \<Rightarrow> pyseq list \<Rightarrow> pyerr + pyseq list" where
  "remove_evaluated [] available_x = Inr available_x"
| "remove_evaluated (d # ds) available_x =
     (case doc_x d of
        None \<Rightarrow> Inl KeyError
      | Some xs \<Rightarrow>
          remove_evaluated ds
            (if py_in (PTuple xs) available_x then py_remove (PTuple xs) available_x
             else available_x))"

text \<open>
  \<^verbatim>\<open>random.choice(seq)\<close> returns \<^verbatim>\<open>seq[i]\<close> for an index \<^verbatim>\<open>i\<close> drawn uniformly below
  \<^verbatim>\<open>len(seq)\<close>. The draw is the parameter \<open>r\<close>, read modulo the length.
\<close>

definition random_choice :: "nat \<Rightarrow> 'a list \<Rightarrow> 'a" where
  "random_choice r xs = xs ! (r mod length xs)"

definition dupe_check :: "nat \<Rightarrow> doc list \<Rightarrow> pyseq \<Rightarrow> pyval list list \<Rightarrow> pyerr + pyseq" where
  "dupe_check r collection x X_dim =
     (case calculate_discrete_space X_dim of
        Inl e \<Rightarrow> Inl e
      | Inr space \<Rightarrow>
          (case remove_evaluated collection space of
             Inl e \<Rightarrow> Inl e
           | Inr available_x \<Rightarrow>
               (if length available_x = 0 then Inl (ValueError Space_exhausted)
                else if py_in x available_x then Inr x
                else Inr (random_choice r available_x))))"

section \<open>Inference of the auxiliary dimensions\<close>

text \<open>Python's arithmetic on the three kinds of values; a string times a float is an error.\<close>

fun py_add :: "pyval \<Rightarrow> pyval \<Rightarrow> pyerr + pyval" where
  "py_add (PInt a) (PInt b) = Inr (PInt (a + b))"
| "py_add (PInt a) (PFloat b) = Inr (PFloat (real_of_int a + b))"
| "py_add (PFloat a) (PInt b) = Inr (PFloat (a + real_of_int b))"
| "py_add (PFloat a) (PFloat b) = Inr (PFloat (a + b))"
| "py_add (PStr a) (PStr b) = Inr (PStr (a @ b))"
| "py_add _ _ = Inl (TypeError Bad_operand)"

fun py_sub :: "pyval \<Rightarrow> pyval \<Rightarrow> pyerr + pyval" where
  "py_sub (PInt a) (PInt b) = Inr (PInt (a - b))"
| "py_sub (PInt a) (PFloat b) = Inr (PFloat (real_of_int a - b))"
| "py_sub (PFloat a) (PInt b) = Inr (PFloat (a - real_of_int b))"
| "py_sub (PFloat a) (PFloat b) = Inr (PFloat (a - b))"
| "py_sub _ _ = Inl (TypeError Bad_operand)"

fun py_mul :: "pyval \<Rightarrow> pyval \<Rightarrow> pyerr + pyval" where
  "py_mul (PInt a) (PInt b) = Inr (PInt (a * b))"
| "py_mul (PInt a) (PFloat b) = Inr (PFloat (real_of_int a * b))"
| "py_mul (PFloat a) (PInt b) = Inr (PFloat (a * real_of_int b))"
| "py_mul (PFloat a) (PFloat b) = Inr (PFloat (a * b))"
| "py_mul (PInt n) (PStr s) = Inr (PStr (concat (replicate (nat n) s)))"
| "py_mul (PStr s) (PInt n) = Inr (PStr (concat (replicate (nat n) s)))"
| "py_mul _ _ = Inl (TypeError Bad_operand)"

definition on_ok :: "pyerr + 'a \<Rightarrow> ('a \<Rightarrow> pyerr + 'b) \<Rightarrow> pyerr + 'b" where
  "on_ok m f = (case m of Inl e \<Rightarrow> Inl e | Inr a \<Rightarrow> f a)"

text \<open>
  \<^verbatim>\<open>_Z_dims\<close> starts with one fresh list \<^verbatim>\<open>[z, z]\<close> for every position of the first
  observation and has one list \<^verbatim>\<open>cat_values\<close>, created once before the loops. The
  assignment \<^verbatim>\<open>dims[i] = cat_values\<close> makes position \<open>i\<close> an alias of that one list, so an
  entry of \<^verbatim>\<open>dims\<close> is either a list of its own with two items or the shared list. The
  state of the loops is the list of entries together with the content of \<^verbatim>\<open>cat_values\<close>.
\<close>

datatype dimref = Own pyval pyval | Shared

type_synonym zstate = "dimref list \<times> pyval list"

fun read_dim :: "dimref \<Rightarrow> pyval list \<Rightarrow> pyval list" where
  "read_dim (Own a b) cat_values = [a, b]"
| "read_dim Shared cat_values = cat_values"

text \<open>\<^verbatim>\<open>dims[i][k]\<close> and \<^verbatim>\<open>dims[i][k] = v\<close>; writing through an alias changes the shared list.\<close>

definition dim_get :: "zstate \<Rightarrow> nat \<Rightarrow> nat \<Rightarrow> pyerr + pyval" where
  "dim_get st i k =
     (let items = read_dim (fst st ! i) (snd st)
      in if k < length items then Inr (items ! k) else Inl IndexError)"

fun dim_set :: "zstate \<Rightarrow> nat \<Rightarrow> nat \<Rightarrow> pyval \<Rightarrow> zstate" where
  "dim_set (dims, cat_values) i k v =
     (case dims ! i of
        Own a b \<Rightarrow> (dims[i := (if k = 0 then Own v b else Own a v)], cat_values)
      | Shared \<Rightarrow> (dims, cat_values[k := v]))"

fun val_in :: "pyval \<Rightarrow> pyval list \<Rightarrow> bool" where
  "val_in v [] = False"
| "val_in v (c # cs) = (py_eq c v \<or> val_in v cs)"

text \<open>
  The body of the inner loop for position \<open>i\<close> and the value \<^verbatim>\<open>z[i]\<close>: a label that is not
  yet in \<^verbatim>\<open>cat_values\<close> is appended and the position becomes the alias; a number moves the
  low or the high entry of the position.
\<close>

definition observe :: "pyval \<Rightarrow> nat \<Rightarrow> zstate \<Rightarrow> pyerr + zstate" where
  "observe zi i st =
     (if in_others zi then
        (if \<not> val_in zi (snd st) then Inr ((fst st)[i := Shared], snd st @ [zi])
         else Inr st)
      else
        on_ok (dim_get st i 0) (\<lambda>d0.
          if py_lt zi d0 then Inr (dim_set st i 0 zi)
          else
            on_ok (dim_get st i 1) (\<lambda>d1.
              if py_gt zi d1 then Inr (dim_set st i 1 zi)
              else Inr st)))"

text \<open>The inner loop over the positions; \<^verbatim>\<open>z[i]\<close> raises an IndexError on a short vector.\<close>

fun observe_row :: "pyval list \<Rightarrow> nat list \<Rightarrow> zstate \<Rightarrow> pyerr + zstate" where
  "observe_row z [] st = Inr st"
| "observe_row z (i # is) st =
     (if i < length z then on_ok (observe (z ! i) i st) (observe_row z is)
      else Inl IndexError)"

fun observe_all :: "pyval list list \<Rightarrow> zstate \<Rightarrow> pyerr + zstate" where
  "observe_all [] st = Inr st"
| "observe_all (z # Z) st =
     on_ok (observe_row z [0..<length (fst st)] st) (observe_all Z)"

text \<open>
  The second loop. Its guard \<^verbatim>\<open>dims == check\<close> compares the list with itself, since
  \<^verbatim>\<open>check = dims\<close> copies the reference and not the list: the guard holds in every run and
  the model has no test for it. For a position whose first entry is a number, both entries
  are moved apart (by 5 percent for a float, by one for an integer) and swapped into a new
  list when the low one has become the greater.
\<close>

definition expand :: "nat \<Rightarrow> zstate \<Rightarrow> pyerr + zstate" where
  "expand i st =
     on_ok (dim_get st i 0) (\<lambda>d0.
       if \<not> in_numbers d0 then Inr st
       else
         on_ok (if in_floats d0 then
                  on_ok (py_mul (PFloat 0.05) d0) (\<lambda>m0.
                  on_ok (py_sub d0 m0) (\<lambda>lo.
                  let st1 = dim_set st i 0 lo in
                  on_ok (dim_get st1 i 1) (\<lambda>d1.
                  on_ok (py_mul (PFloat 0.05) d1) (\<lambda>m1.
                  on_ok (py_add d1 m1) (\<lambda>hi.
                  Inr (dim_set st1 i 1 hi))))))
                else
                  on_ok (py_sub d0 (PInt 1)) (\<lambda>lo.
                  let st1 = dim_set st i 0 lo in
                  on_ok (dim_get st1 i 1) (\<lambda>d1.
                  on_ok (py_add d1 (PInt 1)) (\<lambda>hi.
                  Inr (dim_set st1 i 1 hi)))))
           (\<lambda>st2.
              on_ok (dim_get st2 i 0) (\<lambda>lo.
              on_ok (dim_get st2 i 1) (\<lambda>hi.
              if py_gt lo hi then Inr ((fst st2)[i := Own hi lo], snd st2)
              else Inr st2))))"

fun expand_all :: "nat list \<Rightarrow> zstate \<Rightarrow> pyerr + zstate" where
  "expand_all [] st = Inr st"
| "expand_all (i # is) st = on_ok (expand i st) (expand_all is)"

text \<open>The dimensions inferred from the observed vectors \<open>Z\<close>; \<^verbatim>\<open>Z[0]\<close> needs one of them.\<close>

definition Z_dims_of :: "pyval list list \<Rightarrow> pyerr + pyval list list" where
  "Z_dims_of Z =
     (case Z of
        [] \<Rightarrow> Inl IndexError
      | z0 # _ \<Rightarrow>
          on_ok (observe_all Z (map (\<lambda>z. Own z z) z0, [])) (\<lambda>st.
          on_ok (expand_all [0..<length (fst st)] st) (\<lambda>st'.
          Inr (map (\<lambda>d. read_dim d (snd st')) (fst st')))))"

fun all_z :: "doc list \<Rightarrow> pyerr + pyval list list" where
  "all_z [] = Inr []"
| "all_z (d # ds) =
     (case doc_z d of
        None \<Rightarrow> Inl KeyError
      | Some z \<Rightarrow> on_ok (all_z ds) (\<lambda>Z. Inr (z # Z)))"

definition Z_dims :: "doc list \<Rightarrow> pyerr + pyval list list" where
  "Z_dims collection = on_ok (all_z collection) Z_dims_of"

section \<open>One iteration of the loop\<close>

text \<open>
  \<^verbatim>\<open>_store\<close>: without \<^verbatim>\<open>update\<close> the fields are inserted as a new document, which gets an
  identifier that no document of the collection has; with \<^verbatim>\<open>update\<close> the first document
  with the given identifier takes the fields of \<^verbatim>\<open>spec\<close> by \<^verbatim>\<open>$set\<close>, which writes the fields
  that \<^verbatim>\<open>spec\<close> names and leaves the others as they are.
\<close>

record fields =
  f_x :: "pyval list option"
  f_y :: "pyval option"
  f_z :: "pyval list option"
  f_x_new :: "pyval list option"
  f_z_new :: "pyval list option"

definition no_fields :: fields where
  "no_fields = \<lparr>f_x = None, f_y = None, f_z = None, f_x_new = None, f_z_new = None\<rparr>"

definition new_id :: "doc list \<Rightarrow> nat" where
  "new_id collection = Suc (foldr max (map doc_id collection) 0)"

definition insert_one :: "fields \<Rightarrow> doc list \<Rightarrow> doc list \<times> nat" where
  "insert_one spec collection =
     (collection @
        [\<lparr>doc_id = new_id collection, doc_x = f_x spec, doc_y = f_y spec, doc_z = f_z spec,
          doc_x_new = f_x_new spec, doc_z_new = f_z_new spec\<rparr>],
      new_id collection)"

definition set_field :: "'a option \<Rightarrow> 'a option \<Rightarrow> 'a option" where
  "set_field old new = (case new of None \<Rightarrow> old | Some v \<Rightarrow> Some v)"

definition dollar_set :: "fields \<Rightarrow> doc \<Rightarrow> doc" where
  "dollar_set spec d =
     d\<lparr>doc_x := set_field (doc_x d) (f_x spec),
       doc_y := set_field (doc_y d) (f_y spec),
       doc_z := set_field (doc_z d) (f_z spec),
       doc_x_new := set_field (doc_x_new d) (f_x_new spec),
       doc_z_new := set_field (doc_z_new d) (f_z_new spec)\<rparr>"

fun update_one :: "nat \<Rightarrow> fields \<Rightarrow> doc list \<Rightarrow> doc list" where
  "update_one i spec [] = []"
| "update_one i spec (d # ds) =
     (if doc_id d = i then dollar_set spec d # ds else d # update_one i spec ds)"

definition store :: "fields \<Rightarrow> bool \<Rightarrow> nat \<Rightarrow> doc list \<Rightarrow> doc list \<times> nat" where
  "store spec update i collection =
     (if update = False then insert_one spec collection
      else (update_one i spec collection, i))"

text \<open>
  The history read of \<^verbatim>\<open>run_task\<close>: a document enters \<^verbatim>\<open>X_tot\<close> and \<^verbatim>\<open>Y\<close> when it has all of
  \<^verbatim>\<open>x\<close>, \<^verbatim>\<open>y\<close> and \<^verbatim>\<open>z\<close>.
\<close>

definition has_xyz :: "doc \<Rightarrow> bool" where
  "has_xyz d = (doc_x d \<noteq> None \<and> doc_y d \<noteq> None \<and> doc_z d \<noteq> None)"

fun gather :: "doc list \<Rightarrow> pyval list list \<times> pyval list \<Rightarrow> pyval list list \<times> pyval list" where
  "gather [] (X_tot, Y) = (X_tot, Y)"
| "gather (d # ds) (X_tot, Y) =
     (if has_xyz d
      then gather ds (X_tot @ [the (doc_x d) @ the (doc_z d)], Y @ [the (doc_y d)])
      else gather ds (X_tot, Y))"

text \<open>\<^verbatim>\<open>-1 * y\<close>: the negative of a number; minus one times a string is the empty string.\<close>

fun negate :: "pyval \<Rightarrow> pyval" where
  "negate (PInt a) = PInt (- a)"
| "negate (PFloat a) = PFloat (- a)"
| "negate (PStr s) = PStr []"

text \<open>
  The parameters of the task and the spec of the firework. A parameter that may be left out
  is an option. The address of the database does not matter here beyond which of its parts
  are given: the collection it names is the state that \<^verbatim>\<open>run_task\<close> works on.
\<close>

datatype pyobj =
    ObjList "pyval list" | ObjTuple "pyval list" | ObjDict "(string \<times> pyval) list"
  | ObjScalar pyval | ObjNone

type_synonym predfun = "pyval list list \<Rightarrow> pyval list \<Rightarrow> pyval list list \<Rightarrow> pyerr + pyseq"

record task =
  dimensions :: "pyval list list"
  get_z :: "(pyseq \<Rightarrow> pyerr + pyval list) option"
  predictor :: "string option"
  max_on :: "bool option"
  wf_creator_args :: "pyobj option"
  wf_creator_kwargs :: "pyobj option"
  duplicate_check :: "bool option"
  has_host :: bool
  has_port :: bool
  has_name :: bool
  has_lpad :: bool

record fw_spec =
  tw_x :: pyseq
  tw_y :: pyval
  add_launchpad_and_fw_id :: "bool option"

text \<open>
  What the task calls outside the repository: the minimisers of the optimisation library by
  name (each returns the last of its \<^verbatim>\<open>x_iters\<close> for the given history and dimensions), the
  custom predictor that a name deserialises to, and the workflow creator.
\<close>

record 'w env =
  skopt :: "string \<Rightarrow> predfun"
  custom :: "string \<Rightarrow> predfun"
  wf_creator :: "pyseq \<Rightarrow> pyval list \<Rightarrow> (string \<times> pyval) list \<Rightarrow> pyerr + 'w"

record 'w action =
  additions :: 'w
  optimization_id :: nat

text \<open>
  The two type checks. In \<^verbatim>\<open>not isinstance(a, list) or isinstance(a, tuple)\<close> the negation
  binds the first test only.
\<close>

fun isinstance_list :: "pyobj \<Rightarrow> bool" where
  "isinstance_list (ObjList _) = True"
| "isinstance_list _ = False"

fun isinstance_tuple :: "pyobj \<Rightarrow> bool" where
  "isinstance_tuple (ObjTuple _) = True"
| "isinstance_tuple _ = False"

fun isinstance_dict :: "pyobj \<Rightarrow> bool" where
  "isinstance_dict (ObjDict _) = True"
| "isinstance_dict _ = False"

definition check_args :: "task \<Rightarrow> pyerr + pyobj" where
  "check_args t =
     (let a = (case wf_creator_args t of Some v \<Rightarrow> v | None \<Rightarrow> ObjList [])
      in if \<not> isinstance_list a \<or> isinstance_tuple a then Inl (TypeError Args_not_a_list)
         else Inr a)"

definition check_kwargs :: "task \<Rightarrow> pyerr + pyobj" where
  "check_kwargs t =
     (let k = (case wf_creator_kwargs t of Some v \<Rightarrow> v | None \<Rightarrow> ObjDict [])
      in if \<not> isinstance_dict k then Inl (TypeError Kwargs_not_a_dict) else Inr k)"

text \<open>
  Which database: host, port and name together, or a launchpad. With only
  \<^verbatim>\<open>_add_launchpad_and_fw_id\<close> in the spec the branch does nothing, and the names
  \<^verbatim>\<open>host\<close> and \<^verbatim>\<open>port\<close> are unbound when the client is made.
\<close>

definition database :: "task \<Rightarrow> fw_spec \<Rightarrow> pyerr + unit" where
  "database t s =
     (if has_host t \<or> has_port t \<or> has_name t then
        (if has_host t \<and> has_port t \<and> has_name t then Inr () else Inl AttributeError)
      else if has_lpad t then Inr ()
      else if add_launchpad_and_fw_id s \<noteq> None then Inl NameError
      else Inl AttributeError)"

text \<open>The items handed to the call \<^verbatim>\<open>wf_creator(x_new, *args, **kwargs)\<close>.\<close>

fun positional_items :: "pyobj \<Rightarrow> pyval list" where
  "positional_items (ObjList xs) = xs"
| "positional_items (ObjTuple xs) = xs"
| "positional_items _ = []"

fun keyword_items :: "pyobj \<Rightarrow> (string \<times> pyval) list" where
  "keyword_items (ObjDict kvs) = kvs"
| "keyword_items _ = []"

text \<open>Slices \<^verbatim>\<open>s[:n]\<close> and \<^verbatim>\<open>s[n:]\<close> keep the kind of the sequence.\<close>

fun slice_to :: "nat \<Rightarrow> pyseq \<Rightarrow> pyseq" where
  "slice_to n (PList xs) = PList (take n xs)"
| "slice_to n (PTuple xs) = PTuple (take n xs)"

fun slice_from :: "nat \<Rightarrow> pyseq \<Rightarrow> pyseq" where
  "slice_from n (PList xs) = PList (drop n xs)"
| "slice_from n (PTuple xs) = PTuple (drop n xs)"

text \<open>
  The call of the predictor: one of the four names of the library, or a custom function,
  whose every exception is raised again as the ValueError of the source.
\<close>

definition predict ::
  "'w env \<Rightarrow> task \<Rightarrow> pyval list list \<Rightarrow> pyval list \<Rightarrow> pyval list list \<Rightarrow> pyerr + pyseq" where
  "predict E t X_tot Y X_tot_dims =
     (let p = (case predictor t of None \<Rightarrow> ''forest_minimize'' | Some n \<Rightarrow> n)
      in if p \<in> set [''gbrt_minimize'', ''random_guess'', ''forest_minimize'', ''gp_minimize'']
         then skopt E p X_tot Y X_tot_dims
         else (case custom E p X_tot Y X_tot_dims of
                 Inl e \<Rightarrow> Inl (ValueError Predictor_failed)
               | Inr x_tot_new \<Rightarrow> Inr x_tot_new))"

text \<open>
  From the history read to the duplicate check, for the collection that already holds the
  new document: the result is the pair of \<^verbatim>\<open>x_new\<close> and \<^verbatim>\<open>z_new\<close>. The duplicate check is
  called with \<^verbatim>\<open>x\<close>, as in the source.
\<close>

definition propose ::
  "'w env \<Rightarrow> nat \<Rightarrow> task \<Rightarrow> pyseq \<Rightarrow> pyval list \<Rightarrow> doc list \<Rightarrow> pyerr + pyseq \<times> pyseq" where
  "propose E r t x z collection =
     (let X_dims = dimensions t;
          (X_tot, Y0) = gather collection ([], []);
          Y = map (\<lambda>y. if max_on t = Some True then negate y else y) Y0
      in on_ok (if z \<noteq> [] then on_ok (Z_dims collection) (\<lambda>zd. Inr (X_dims @ zd))
                else Inr X_dims) (\<lambda>X_tot_dims.
         on_ok (predict E t X_tot Y X_tot_dims) (\<lambda>x_tot_new.
         let x_new = slice_to (length (seq_items x)) x_tot_new;
             z_new = slice_from (length (seq_items x)) x_tot_new
         in if duplicate_check t = Some True then
              on_ok (is_discrete X_dims) (\<lambda>discrete.
                if discrete then
                  on_ok (dupe_check r collection x X_dims) (\<lambda>x_new'. Inr (x_new', z_new))
                else Inr (x_new, z_new))
            else Inr (x_new, z_new))))"

definition run_task ::
  "'w env \<Rightarrow> nat \<Rightarrow> task \<Rightarrow> fw_spec \<Rightarrow> doc list \<Rightarrow> doc list \<times> (pyerr + 'w action)" where
  "run_task E r t s collection =
     (let x = tw_x s; y = tw_y s in
      case on_ok (check_args t) (\<lambda>args.
           on_ok (check_kwargs t) (\<lambda>kwargs.
           on_ok (database t s) (\<lambda>_.
           on_ok (case get_z t of None \<Rightarrow> Inr [] | Some f \<Rightarrow> f x) (\<lambda>z.
           Inr (args, kwargs, z))))) of
        Inl e \<Rightarrow> (collection, Inl e)
      | Inr (args, kwargs, z) \<Rightarrow>
          (let (c1, i) =
                 store (no_fields\<lparr>f_z := Some z, f_y := Some y, f_x := Some (seq_items x)\<rparr>)
                   False 0 collection
           in case propose E r t x z c1 of
                Inl e \<Rightarrow> (c1, Inl e)
              | Inr (x_new, z_new) \<Rightarrow>
                  (let (c2, _) =
                         store (no_fields\<lparr>f_z_new := Some (seq_items z_new),
                                          f_x_new := Some (seq_items x_new)\<rparr>) True i c1
                   in case wf_creator E x_new (positional_items args) (keyword_items kwargs) of
                        Inl e \<Rightarrow> (c2, Inl e)
                      | Inr flow \<Rightarrow> (c2, Inr \<lparr>additions = flow, optimization_id = i\<rparr>))))"

section \<open>The queries of the database manager\<close>

text \<open>
  A document of the collection that \<^verbatim>\<open>manage_db.py\<close> reads may have an \<^verbatim>\<open>input\<close> field and
  an \<^verbatim>\<open>output\<close> field, each a dictionary from names to values.
\<close>

record mdoc =
  input_side :: "(string \<rightharpoonup> pyval) option"
  output_side :: "(string \<rightharpoonup> pyval) option"

text \<open>
  The chain \<^verbatim>\<open>if var in document['input'] ... elif var in document['output'] ... else\<close> that
  the three queries share. \<^verbatim>\<open>document['input']\<close> raises a KeyError on a document without
  that field; \<^verbatim>\<open>document['output']\<close> is read only when the key is not on the input side and
  raises likewise; the last branch is the KeyError of the source, raised inside the loop.
  The result is the value together with \<^verbatim>\<open>document['input']\<close>.
\<close>

definition find_value :: "string \<Rightarrow> mdoc \<Rightarrow> pyerr + pyval \<times> (string \<rightharpoonup> pyval)" where
  "find_value var document =
     (case input_side document of
        None \<Rightarrow> Inl KeyError
      | Some inp \<Rightarrow>
          (case inp var of
             Some v \<Rightarrow> Inr (v, inp)
           | None \<Rightarrow>
               (case output_side document of
                  None \<Rightarrow> Inl KeyError
                | Some out \<Rightarrow>
                    (case out var of
                       Some v \<Rightarrow> Inr (v, inp)
                     | None \<Rightarrow> Inl KeyError))))"

text \<open>The loop of \<^verbatim>\<open>get_param\<close> and \<^verbatim>\<open>get_avg\<close>, which appends the value of every document.\<close>

fun total_list :: "string \<Rightarrow> mdoc list \<Rightarrow> pyval list \<Rightarrow> pyerr + pyval list" where
  "total_list var [] acc = Inr acc"
| "total_list var (document # cursor) acc =
     (case find_value var document of
        Inl e \<Rightarrow> Inl e
      | Inr (v, _) \<Rightarrow> total_list var cursor (acc @ [v]))"

definition get_param :: "string \<Rightarrow> mdoc list \<Rightarrow> pyerr + pyval list" where
  "get_param var collection = total_list var collection []"

text \<open>
  \<^verbatim>\<open>sum\<close> starts from the integer 0. The quotient by the length is the floor division of
  Python 2 for an integer sum. \<^verbatim>\<open>int\<close> cuts a float towards zero.
\<close>

fun py_sum :: "pyval list \<Rightarrow> pyval \<Rightarrow> pyerr + pyval" where
  "py_sum [] acc = Inr acc"
| "py_sum (v # vs) acc = on_ok (py_add acc v) (py_sum vs)"

definition truncate :: "real \<Rightarrow> int" where
  "truncate r = (if 0 \<le> r then \<lfloor>r\<rfloor> else \<lceil>r\<rceil>)"

definition get_avg :: "string \<Rightarrow> mdoc list \<Rightarrow> pyerr + pyval" where
  "get_avg var collection =
     on_ok (total_list var collection []) (\<lambda>values.
       case values of
         [] \<Rightarrow> Inl IndexError
       | v0 # _ \<Rightarrow>
           if in_ints v0 then
             on_ok (py_sum values (PInt 0)) (\<lambda>s.
               case s of
                 PInt a \<Rightarrow> Inr (PInt (a div int (length values)))
               | PFloat a \<Rightarrow> Inr (PInt (truncate (a / real (length values))))
               | PStr _ \<Rightarrow> Inl (TypeError Bad_operand))
           else if in_floats v0 then
             on_ok (py_sum values (PInt 0)) (\<lambda>s.
               case s of
                 PInt a \<Rightarrow> Inr (PFloat (real_of_int (a div int (length values))))
               | PFloat a \<Rightarrow> Inr (PFloat (a / real (length values)))
               | PStr _ \<Rightarrow> Inl (TypeError Bad_operand))
           else Inr (PInt 0))"

text \<open>
  \<^verbatim>\<open>get_optima\<close> keeps the least and the greatest value seen and the input side of the
  document they come from. With an option other than \<^verbatim>\<open>'min'\<close> and \<^verbatim>\<open>'max'\<close> it calls
  itself with the default option and drops the result: \<open>again\<close> is the outcome of that
  call, which is the same each time. It then returns nothing.
\<close>

type_synonym optima = "pyval option \<times> pyval option \<times> (string \<rightharpoonup> pyval)"

fun see :: "string \<Rightarrow> pyval \<Rightarrow> (string \<rightharpoonup> pyval) \<Rightarrow> optima \<Rightarrow> optima" where
  "see min_or_max v params (mn, mx, optima_params) =
     (if min_or_max = ''min'' then
        (case mn of
           Some m \<Rightarrow> if py_lt v m then (Some v, mx, params) else (mn, mx, optima_params)
         | None \<Rightarrow> (Some v, mx, params))
      else
        (case mx of
           Some m \<Rightarrow> if py_ge v m then (mn, Some v, params) else (mn, mx, optima_params)
         | None \<Rightarrow> (mn, Some v, params)))"

fun optima_scan ::
  "string \<Rightarrow> string \<Rightarrow> pyerr + unit \<Rightarrow> mdoc list \<Rightarrow> optima \<Rightarrow> pyerr + optima" where
  "optima_scan var min_or_max again [] st = Inr st"
| "optima_scan var min_or_max again (document # cursor) st =
     (case find_value var document of
        Inl e \<Rightarrow> Inl e
      | Inr (v, inp) \<Rightarrow>
          (if min_or_max = ''min'' \<or> min_or_max = ''max''
           then optima_scan var min_or_max again cursor (see min_or_max v inp st)
           else on_ok again (\<lambda>_. optima_scan var min_or_max again cursor st)))"

definition get_optima_default ::
  "string \<Rightarrow> mdoc list \<Rightarrow> pyerr + pyval option \<times> (string \<rightharpoonup> pyval)" where
  "get_optima_default var collection =
     on_ok (optima_scan var ''min'' (Inr ()) collection (None, None, Map.empty))
       (\<lambda>(mn, mx, optima_params). Inr (mn, optima_params))"

definition get_optima ::
  "string \<Rightarrow> string \<Rightarrow> mdoc list \<Rightarrow> pyerr + (pyval option \<times> (string \<rightharpoonup> pyval)) option" where
  "get_optima var min_or_max collection =
     (let again = on_ok (get_optima_default var collection) (\<lambda>_. Inr ())
      in on_ok (optima_scan var min_or_max again collection (None, None, Map.empty))
           (\<lambda>(mn, mx, optima_params).
              if min_or_max = ''max'' then Inr (Some (mx, optima_params))
              else if min_or_max = ''min'' then Inr (Some (mn, optima_params))
              else on_ok again (\<lambda>_. Inr None)))"

section \<open>Statements that the code is compared with\<close>

text \<open>
  The bounds that the inference is to give for a position with one observed value \<open>v\<close>:
  5 percent of \<open>v\<close> to either side for a float, in increasing order, and one to either side
  for an integer.
\<close>

definition float_bounds :: "real \<Rightarrow> pyval list" where
  "float_bounds v =
     (let lo = v - 0.05 * v; hi = v + 0.05 * v
      in if lo > hi then [PFloat hi, PFloat lo] else [PFloat lo, PFloat hi])"

definition int_bounds :: "int \<Rightarrow> pyval list" where
  "int_bounds v = [PInt (v - 1), PInt (v + 1)]"

text \<open>
  The invariant of the two loops of \<^verbatim>\<open>_Z_dims\<close> when \<open>z\<close> is the only observation: the
  shared list holds labels only, and a position is an alias (then its value is a label), or
  still the fresh pair of its value, or, once the second loop has passed it (the positions
  in \<open>S\<close>), a list of its own with the final bounds.
\<close>

fun final_dim :: "pyval \<Rightarrow> pyval list" where
  "final_dim (PFloat v) = float_bounds v"
| "final_dim (PInt v) = int_bounds v"
| "final_dim (PStr s) = [PStr s, PStr s]"

definition single_inv :: "pyval list \<Rightarrow> nat set \<Rightarrow> zstate \<Rightarrow> bool" where
  "single_inv z S st =
     (length (fst st) = length z \<and> list_all in_others (snd st) \<and>
      (\<forall>k<length z.
          (fst st ! k = Shared \<and> in_others (z ! k) \<and> snd st \<noteq> [])
        \<or> (k \<notin> S \<and> fst st ! k = Own (z ! k) (z ! k))
        \<or> (k \<in> S \<and> fst st ! k \<noteq> Shared \<and> read_dim (fst st ! k) (snd st) = final_dim (z ! k))))"

text \<open>
  A record answers a query for a key when it has the input field and the key is there, or
  is on its output side; its value for the key is the one of the input side when the key is
  there, else the one of the output side.
\<close>

definition carries :: "string \<Rightarrow> mdoc \<Rightarrow> bool" where
  "carries var d =
     (case input_side d of
        None \<Rightarrow> False
      | Some inp \<Rightarrow>
          inp var \<noteq> None \<or>
          (case output_side d of None \<Rightarrow> False | Some out \<Rightarrow> out var \<noteq> None))"

definition value_of :: "string \<Rightarrow> mdoc \<Rightarrow> pyval" where
  "value_of var d =
     (case the (input_side d) var of
        Some v \<Rightarrow> v
      | None \<Rightarrow> the (the (output_side d) var))"

text \<open>
  A list of points without two points that are equal in Python's sense, and a list of
  values without a float.
\<close>

fun py_distinct :: "pyseq list \<Rightarrow> bool" where
  "py_distinct [] = True"
| "py_distinct (e # es) = (\<not> py_in e es \<and> py_distinct es)"

definition no_float :: "pyval list \<Rightarrow> bool" where
  "no_float vs = list_all (\<lambda>v. \<not> in_floats v) vs"

section \<open>Example runs\<close>

text \<open>
  An environment whose predictor proposes the candidate \<open>c\<close> whatever the history, and whose
  workflow creator answers with the point it is given; a task with the duplicate check
  switched on and a database given by host, port and name.
\<close>

definition candidate_env :: "pyseq \<Rightarrow> pyseq env" where
  "candidate_env c =
     \<lparr>skopt = (\<lambda>_ _ _ _. Inr c), custom = (\<lambda>_ _ _ _. Inr c),
      wf_creator = (\<lambda>x_new _ _. Inr x_new)\<rparr>"

definition checking_task :: "pyval list list \<Rightarrow> task" where
  "checking_task dims =
     \<lparr>dimensions = dims, get_z = None, predictor = None, max_on = None,
      wf_creator_args = None, wf_creator_kwargs = None, duplicate_check = Some True,
      has_host = True, has_port = True, has_name = True, has_lpad = False\<rparr>"

definition evaluated :: "nat \<Rightarrow> pyval list \<Rightarrow> pyval \<Rightarrow> pyval list \<Rightarrow> doc" where
  "evaluated i x y z =
     \<lparr>doc_id = i, doc_x = Some x, doc_y = Some y, doc_z = Some z,
      doc_x_new = None, doc_z_new = None\<rparr>"

text \<open>
  A task over two integer dimensions with an auxiliary feature, and the spec of a firework
  that has evaluated the point \<open>x\<close> with the score 10.
\<close>

definition aux_task :: task where
  "aux_task =
     (checking_task [[PInt 1, PInt 2], [PInt 1, PInt 2]])\<lparr>get_z := Some (\<lambda>x. Inr [PFloat 0.5])\<rparr>"

definition point_spec :: "pyval list \<Rightarrow> fw_spec" where
  "point_spec x = \<lparr>tw_x = PList x, tw_y = PInt 10, add_launchpad_and_fw_id = None\<rparr>"

text \<open>Records of the manager's collection with one key on the input side, or with no key.\<close>

definition with_input :: "string \<Rightarrow> pyval \<Rightarrow> mdoc" where
  "with_input k v = \<lparr>input_side = Some [k \<mapsto> v], output_side = Some Map.empty\<rparr>"

definition with_output :: "string \<Rightarrow> pyval \<Rightarrow> mdoc" where
  "with_output k v = \<lparr>input_side = Some Map.empty, output_side = Some [k \<mapsto> v]\<rparr>"

definition without_keys :: mdoc where
  "without_keys = \<lparr>input_side = Some Map.empty, output_side = Some Map.empty\<rparr>"

section \<open>Basic facts\<close>

lemma on_ok_Inr [simp]: "on_ok (Inr a) f = f a"
  by (simp add: on_ok_def)

lemma on_ok_Inl [simp]: "on_ok (Inl e) f = Inl e"
  by (simp add: on_ok_def)

lemma py_lt_irrefl [simp]: "\<not> py_lt v v"
  by (cases v) simp_all

lemma on_ok_eq_Inr: "on_ok m f = Inr b \<longleftrightarrow> (\<exists>a. m = Inr a \<and> f a = Inr b)"
  by (cases m) simp_all

section \<open>Properties of the enumeration\<close>

subsection \<open>The product in mixed-radix order\<close>

lemma upto_as_map: "[lo..hi] = map (\<lambda>i. lo + int i) [0..<nat (hi - lo + 1)]"
  by (rule nth_equalityI) auto

lemma dimspace_discrete:
  "discrete_dim d \<Longrightarrow> dimspace d = Inr (map (dim_value d) [0..<dim_size d])"
proof (induction d rule: discrete_dim.induct)
  case (1 lo hi)
  show ?case by (simp add: upto_as_map [of lo hi])
next
  case (2 s rest)
  have "map ((!) (PStr s # rest)) [0..<length (PStr s # rest)] = PStr s # rest"
    by (rule map_nth)
  then show ?case by simp
qed simp_all

lemma total_dimspace_discrete:
  "list_all discrete_dim dims \<Longrightarrow>
   total_dimspace dims = Inr (map (\<lambda>d. map (dim_value d) [0..<dim_size d]) dims)"
  by (induction dims) (simp_all add: dimspace_discrete)

lemma length_itertools_product:
  "length (itertools_product pools) = prod_list (map length pools)"
  by (induction pools) (simp_all add: length_concat comp_def sum_list_triv)

lemma length_in_itertools_product:
  "p \<in> set (itertools_product pools) \<Longrightarrow> length p = length pools"
  by (induction pools arbitrary: p) auto

lemma nth_concat_uniform:
  "\<forall>ys\<in>set yss. length ys = m \<Longrightarrow> k < length yss * m \<Longrightarrow>
   concat yss ! k = (yss ! (k div m)) ! (k mod m)"
proof (induction yss arbitrary: k)
  case Nil
  then show ?case by simp
next
  case (Cons ys yss)
  have m: "0 < m" using Cons.prems(2) by (cases m) auto
  show ?case
  proof (cases "k < m")
    case True
    with Cons.prems show ?thesis by (simp add: nth_append)
  next
    case False
    then have km: "m \<le> k" by simp
    have "k - m < length yss * m" using Cons.prems(2) km by simp
    with Cons.IH [of "k - m"] Cons.prems(1)
    have "concat yss ! (k - m) = (yss ! ((k - m) div m)) ! ((k - m) mod m)" by simp
    moreover have "(k - m) div m = k div m - 1" using km m by (simp add: le_div_geq)
    moreover have "(k - m) mod m = k mod m" using km by (simp add: le_mod_geq)
    moreover have "0 < k div m" using km m by (simp add: div_greater_zero_iff)
    ultimately show ?thesis using Cons.prems(1) False
      by (simp add: nth_append nth_Cons')
  qed
qed

lemma digit_of_residue:
  fixes k :: nat
  assumes "0 < P"
  shows "((k mod (a * (l * P))) div P) mod l = (k div P) mod l"
proof -
  have "(k mod (P * (a * l))) div P = (k div P) mod (a * l)"
    using assms by (simp add: mod_mult2_eq)
  moreover have "((k div P) mod (a * l)) mod l = (k div P) mod l"
    by (simp add: mod_mod_cancel)
  ultimately show ?thesis by (simp add: mult.commute mult.left_commute)
qed

lemma itertools_product_eq: "itertools_product pools = product_lists pools"
  by (induction pools) simp_all

lemma distinct_itertools_product:
  "\<forall>xs\<in>set pools. distinct xs \<Longrightarrow> distinct (itertools_product pools)"
  by (simp add: itertools_product_eq distinct_product_lists)

lemma nth_itertools_product:
  "k < prod_list (map length pools) \<Longrightarrow>
   itertools_product pools ! k =
     map (\<lambda>j. (pools ! j) ! ((k div prod_list (map length (drop (Suc j) pools))) mod length (pools ! j)))
       [0..<length pools]"
proof (induction pools arbitrary: k)
  case Nil
  then show ?case by simp
next
  case (Cons xs xss)
  define m where "m = prod_list (map length xss)"
  let ?yss = "map (\<lambda>x. map (\<lambda>p. x # p) (itertools_product xss)) xs"
  have k: "k < length xs * m" using Cons.prems by (simp add: m_def)
  then have m: "0 < m" by (cases m) auto
  have kd: "k div m < length xs" using k m by (simp add: less_mult_imp_div_less)
  have km: "k mod m < m" using m by simp
  have "\<forall>ys\<in>set ?yss. length ys = m"
    by (auto simp: m_def length_itertools_product)
  moreover have "k < length ?yss * m" using k by simp
  ultimately have "concat ?yss ! k = (?yss ! (k div m)) ! (k mod m)"
    by (rule nth_concat_uniform)
  then have lhs: "itertools_product (xs # xss) ! k
      = (xs ! (k div m)) # (itertools_product xss ! (k mod m))"
    using kd km by (simp add: m_def length_itertools_product)
  have ih: "itertools_product xss ! (k mod m) =
     map (\<lambda>j. (xss ! j) ! (((k mod m) div prod_list (map length (drop (Suc j) xss))) mod length (xss ! j)))
       [0..<length xss]"
    using Cons.IH [of "k mod m"] km by (simp add: m_def)
  have digit: "((k mod m) div prod_list (map length (drop (Suc j) xss))) mod length (xss ! j)
      = (k div prod_list (map length (drop (Suc j) xss))) mod length (xss ! j)"
    if j: "j < length xss" for j
  proof -
    let ?P = "prod_list (map length (drop (Suc j) xss))"
    have "xss = take j xss @ (xss ! j) # drop (Suc j) xss"
      using j by (rule id_take_nth_drop)
    then have "map length xss = map length (take j xss) @ length (xss ! j) # map length (drop (Suc j) xss)"
      by (metis list.simps(9) map_append)
    then have meq: "m = prod_list (map length (take j xss)) * (length (xss ! j) * ?P)"
      by (simp add: m_def)
    then have "0 < ?P" using m by (cases ?P) auto
    then show ?thesis unfolding meq by (rule digit_of_residue)
  qed
  have "map (\<lambda>j. ((xs # xss) ! j) ! ((k div prod_list (map length (drop (Suc j) (xs # xss)))) mod length ((xs # xss) ! j)))
       [0..<length (xs # xss)]
     = (xs ! ((k div m) mod length xs)) #
       map (\<lambda>j. (xss ! j) ! ((k div prod_list (map length (drop (Suc j) xss))) mod length (xss ! j)))
         [0..<length xss]"
    by (simp add: upt_conv_Cons map_Suc_upt [symmetric] m_def del: upt_Suc)
  also have "\<dots> = (xs ! (k div m)) #
       map (\<lambda>j. (xss ! j) ! (((k mod m) div prod_list (map length (drop (Suc j) xss))) mod length (xss ! j)))
         [0..<length xss]"
    using kd digit by simp
  finally show ?case using lhs ih by simp
qed

lemma distinct_dim_values:
  "discrete_dim d \<Longrightarrow> distinct (map (dim_value d) [0..<dim_size d])"
proof (induction d rule: discrete_dim.induct)
  case (1 lo hi)
  show ?case by (simp add: distinct_map inj_on_def)
next
  case (2 s rest)
  have "map ((!) (PStr s # rest)) [0..<length (PStr s # rest)] = PStr s # rest"
    by (rule map_nth)
  with 2 show ?case by simp
qed simp_all

text \<open>The example of the docstring of \<^verbatim>\<open>_calculate_discrete_space\<close>.\<close>

lemma calculate_discrete_space_docstring: "calculate_discrete_space [[PInt 1, PInt 2], [PStr ''red'', PStr ''blue'']]
  = Inr [PTuple [PInt 1, PStr ''red''], PTuple [PInt 1, PStr ''blue''],
         PTuple [PInt 2, PStr ''red''], PTuple [PInt 2, PStr ''blue'']]"
  by (simp add: calculate_discrete_space_def upto_rec1)

text \<open>
  C3. For a space whose dimensions are all discrete, of sizes \<open>s1 .. sn\<close>, the enumeration
  succeeds and returns \<open>s1 * ... * sn\<close> pairwise different points, each with \<open>n\<close> items, and
  the point number \<open>k\<close> is the one of the Cartesian product in declared order with the last
  dimension running fastest.
\<close>

theorem calculate_discrete_space_product:
  assumes "list_all discrete_dim dims"
  shows "\<exists>pts. calculate_discrete_space dims = Inr pts
           \<and> length pts = prod_list (map dim_size dims)
           \<and> distinct pts
           \<and> (\<forall>p\<in>set pts. length (seq_items p) = length dims)
           \<and> (\<forall>k<length pts. seq_items (pts ! k) = point_at dims k)"
proof -
  define pools where "pools = map (\<lambda>d. map (dim_value d) [0..<dim_size d]) dims"
  have tds: "total_dimspace dims = Inr pools"
    using assms by (simp add: pools_def total_dimspace_discrete)
  have lens: "map length pools = map dim_size dims"
    by (simp add: pools_def comp_def)
  have dist: "\<forall>xs\<in>set pools. distinct xs"
    using assms by (auto simp: pools_def list_all_iff distinct_dim_values)
  show ?thesis
  proof (cases "length dims = 1")
    case True
    then obtain d where d: "dims = [d]" by (cases dims) auto
    have dd: "discrete_dim d" using assms d by simp
    let ?pts = "map (\<lambda>x. PList [x]) (map (dim_value d) [0..<dim_size d])"
    have "calculate_discrete_space dims = Inr ?pts"
      using tds by (simp add: calculate_discrete_space_def d pools_def)
    moreover have "length ?pts = prod_list (map dim_size dims)" by (simp add: d)
    moreover have "distinct ?pts"
      using distinct_dim_values [OF dd] by (simp add: distinct_map inj_on_def comp_def)
    moreover have "\<forall>p\<in>set ?pts. length (seq_items p) = length dims" by (auto simp: d)
    moreover have "\<forall>k<length ?pts. seq_items (?pts ! k) = point_at dims k"
      by (simp add: d point_at_def)
    ultimately show ?thesis by blast
  next
    case False
    let ?pts = "map PTuple (itertools_product pools)"
    have len: "length (itertools_product pools) = prod_list (map dim_size dims)"
      by (simp add: length_itertools_product lens)
    have "calculate_discrete_space dims = Inr ?pts"
      using tds False by (simp add: calculate_discrete_space_def)
    moreover have "length ?pts = prod_list (map dim_size dims)" using len by simp
    moreover have "distinct ?pts"
      using distinct_itertools_product [OF dist] by (simp add: distinct_map inj_on_def)
    moreover have "\<forall>p\<in>set ?pts. length (seq_items p) = length dims"
      by (auto simp: length_in_itertools_product pools_def)
    moreover have "\<forall>k<length ?pts. seq_items (?pts ! k) = point_at dims k"
    proof (intro allI impI)
      fix k assume "k < length ?pts"
      then have k: "k < prod_list (map length pools)" using len lens by simp
      have dig: "(k div prod_list (map dim_size (drop (Suc j) dims))) mod dim_size (dims ! j) < dim_size (dims ! j)"
        if "j < length dims" for j
      proof -
        have "dims = take j dims @ (dims ! j) # drop (Suc j) dims"
          using that by (rule id_take_nth_drop)
        then have "map dim_size dims = map dim_size (take j dims) @ dim_size (dims ! j) # map dim_size (drop (Suc j) dims)"
          by (metis list.simps(9) map_append)
        then have "prod_list (map dim_size dims) = prod_list (map dim_size (take j dims)) * (dim_size (dims ! j) * prod_list (map dim_size (drop (Suc j) dims)))"
          by simp
        then have "0 < dim_size (dims ! j)" using k lens by (cases "dim_size (dims ! j)") auto
        then show ?thesis by simp
      qed
      have "itertools_product pools ! k = point_at dims k"
        unfolding nth_itertools_product [OF k] point_at_def
        using dig by (auto simp: pools_def drop_map comp_def)
      then show "seq_items (?pts ! k) = point_at dims k"
        using \<open>k < length ?pts\<close> by simp
    qed
    ultimately show ?thesis by blast
  qed
qed

theorem calculate_discrete_space_product_witness:
  "list_all discrete_dim [[PInt 1, PInt 2], [PStr ''red'', PStr ''blue'']]
   \<and> (\<exists>pts. calculate_discrete_space [[PInt 1, PInt 2], [PStr ''red'', PStr ''blue'']] = Inr pts
           \<and> length pts = 4 \<and> distinct pts
           \<and> (\<forall>p\<in>set pts. length (seq_items p) = 2)
           \<and> (\<forall>k<length pts. seq_items (pts ! k)
                  = point_at [[PInt 1, PInt 2], [PStr ''red'', PStr ''blue'']] k))"
proof -
  let ?D = "[[PInt 1, PInt 2], [PStr ''red'', PStr ''blue'']]"
  have h: "list_all discrete_dim ?D" by simp
  from calculate_discrete_space_product [OF h] obtain pts where
    p: "calculate_discrete_space ?D = Inr pts"
       "length pts = prod_list (map dim_size ?D)"
       "distinct pts"
       "\<forall>p\<in>set pts. length (seq_items p) = length ?D"
       "\<forall>k<length pts. seq_items (pts ! k) = point_at ?D k"
    by blast
  have "length pts = 4" using p(2) by simp
  moreover have "\<forall>p\<in>set pts. length (seq_items p) = 2" using p(4) by simp
  ultimately show ?thesis using h p(1,3,5) by blast
qed

text \<open>
  C4. Stated: the enumeration fails with the error of a space that is not finite whenever
  the space is not totally discrete, in particular with a float bound. At the space \<open>[(1, 2.5)]\<close>, which
  \<^verbatim>\<open>_is_discrete\<close> rejects, the enumeration looks at the type of the lower bound only, takes
  the dimension for an integer range and fails in \<^verbatim>\<open>range\<close> with a TypeError; the ValueError
  of an infinite dimension is raised only when the lower bound is the float.
\<close>

theorem calculate_discrete_space_float_upper_bound:
  "is_discrete [[PInt 1, PFloat 2.5]] = Inr False
   \<and> calculate_discrete_space [[PInt 1, PFloat 2.5]] = Inl (TypeError Bad_operand)
   \<and> calculate_discrete_space [[PFloat 1, PFloat 2.5]] = Inl (ValueError Infinite_dimension)"
  by (simp add: calculate_discrete_space_def in_discrete_def)

section \<open>Properties of the duplicate check\<close>

subsection \<open>Spaces of two or more dimensions\<close>

text \<open>
  The points of such a space are tuples, as the evaluated points are when they are looked
  up. Python's equality is an equivalence, and on points without floats it is identity, so
  the enumeration has no two equal points and a removal leaves no point equal to the
  removed one.
\<close>

lemma py_eq_sym: "py_eq a b = py_eq b a"
  by (cases a; cases b) auto

lemma py_eq_trans: "py_eq a b \<Longrightarrow> py_eq b c \<Longrightarrow> py_eq a c"
  by (cases a; cases b; cases c) auto

lemma items_eq_sym: "items_eq as bs = items_eq bs as"
  by (induction as bs rule: items_eq.induct) (auto simp: py_eq_sym)

lemma items_eq_trans: "items_eq as bs \<Longrightarrow> items_eq bs cs \<Longrightarrow> items_eq as cs"
proof (induction as bs arbitrary: cs rule: items_eq.induct)
  case (2 a as b bs)
  then show ?case by (cases cs) (auto intro: py_eq_trans)
qed auto

lemma seq_eq_sym: "seq_eq p q = seq_eq q p"
  by (cases p; cases q) (auto simp: items_eq_sym)

lemma seq_eq_trans: "seq_eq p q \<Longrightarrow> seq_eq q s \<Longrightarrow> seq_eq p s"
  by (cases p; cases q; cases s) (auto intro: items_eq_trans)

lemma py_in_iff: "py_in t es \<longleftrightarrow> (\<exists>e\<in>set es. seq_eq e t)"
  by (induction es) auto

lemma set_py_remove: "set (py_remove t es) \<subseteq> set es"
  by (induction es) auto

lemma py_in_mono: "set es \<subseteq> set es' \<Longrightarrow> py_in t es \<Longrightarrow> py_in t es'"
  by (auto simp: py_in_iff)

lemma py_distinct_remove: "py_distinct es \<Longrightarrow> py_distinct (py_remove t es)"
proof (induction es)
  case Nil
  then show ?case by simp
next
  case (Cons e es)
  then have "\<not> py_in e (py_remove t es)"
    using py_in_mono [OF set_py_remove] by auto
  with Cons show ?case by simp
qed

lemma py_remove_gone: "py_distinct es \<Longrightarrow> \<not> py_in t (py_remove t es)"
proof (induction es)
  case Nil
  then show ?case by simp
next
  case (Cons e es)
  show ?case
  proof (cases "seq_eq e t")
    case True
    have "\<not> py_in t es"
    proof
      assume "py_in t es"
      then obtain e' where e': "e' \<in> set es" "seq_eq e' t" by (auto simp: py_in_iff)
      from e'(2) True have "seq_eq e' e" using seq_eq_trans seq_eq_sym by blast
      with e'(1) Cons.prems show False by (auto simp: py_in_iff)
    qed
    with True show ?thesis by simp
  next
    case False
    with Cons show ?thesis by simp
  qed
qed

lemma remove_evaluated_inv:
  assumes "py_distinct av" and "remove_evaluated ds av = Inr av'"
  shows "py_distinct av' \<and> set av' \<subseteq> set av
         \<and> (\<forall>d\<in>set ds. \<forall>xs. doc_x d = Some xs \<longrightarrow> \<not> py_in (PTuple xs) av')"
  using assms
proof (induction ds arbitrary: av)
  case Nil
  then show ?case by simp
next
  case (Cons d ds)
  from Cons.prems(2) obtain xs where xs: "doc_x d = Some xs"
    by (cases "doc_x d") auto
  define av1 where
    "av1 = (if py_in (PTuple xs) av then py_remove (PTuple xs) av else av)"
  have d1: "py_distinct av1"
    using Cons.prems(1) by (simp add: av1_def py_distinct_remove)
  have s1: "set av1 \<subseteq> set av"
    using set_py_remove by (auto simp: av1_def)
  have g1: "\<not> py_in (PTuple xs) av1"
    using Cons.prems(1) by (simp add: av1_def py_remove_gone)
  have r: "remove_evaluated ds av1 = Inr av'"
    using Cons.prems(2) xs by (simp add: av1_def)
  from Cons.IH [OF d1 r] have ih: "py_distinct av'" "set av' \<subseteq> set av1"
    "\<forall>d\<in>set ds. \<forall>xs. doc_x d = Some xs \<longrightarrow> \<not> py_in (PTuple xs) av'"
    by auto
  have "\<not> py_in (PTuple xs) av'"
    using g1 py_in_mono [OF ih(2)] by blast
  with ih s1 xs show ?case by auto
qed

lemma py_eq_exact: "\<not> in_floats a \<Longrightarrow> \<not> in_floats b \<Longrightarrow> py_eq a b \<Longrightarrow> a = b"
  by (cases a; cases b) auto

lemma items_eq_exact: "no_float as \<Longrightarrow> no_float bs \<Longrightarrow> items_eq as bs \<Longrightarrow> as = bs"
  by (induction as bs rule: items_eq.induct) (auto simp: no_float_def dest: py_eq_exact)

lemma py_distinct_exact:
  "distinct ps \<Longrightarrow> \<forall>p\<in>set ps. no_float p \<Longrightarrow> py_distinct (map PTuple ps)"
proof (induction ps)
  case Nil
  then show ?case by simp
next
  case (Cons p ps)
  have "\<not> py_in (PTuple p) (map PTuple ps)"
  proof
    assume "py_in (PTuple p) (map PTuple ps)"
    then obtain q where q: "q \<in> set ps" "items_eq q p" by (auto simp: py_in_iff)
    with Cons.prems(2) have "q = p" by (auto dest: items_eq_exact)
    with q(1) Cons.prems(1) show False by simp
  qed
  with Cons show ?case by simp
qed

lemma itertools_product_items:
  "p \<in> set (itertools_product pools) \<Longrightarrow> \<forall>pool\<in>set pools. no_float pool \<Longrightarrow> no_float p"
  by (induction pools arbitrary: p) (auto simp: no_float_def list_all_iff)

lemma others_not_floats: "in_others v \<Longrightarrow> \<not> in_floats v"
  by (cases v) simp_all

lemma no_float_dim_values:
  "discrete_dim d \<Longrightarrow> no_float (map (dim_value d) [0..<dim_size d])"
proof (induction d rule: discrete_dim.induct)
  case (1 lo hi)
  show ?case by (simp add: no_float_def list_all_iff)
next
  case (2 s rest)
  have "map ((!) (PStr s # rest)) [0..<length (PStr s # rest)] = PStr s # rest"
    by (rule map_nth)
  moreover have "no_float (PStr s # rest)"
    using 2 by (auto simp: no_float_def list_all_iff others_not_floats)
  ultimately show ?case by simp
qed simp_all

lemma calculate_discrete_space_py_distinct:
  assumes "list_all discrete_dim dims" and "length dims \<noteq> 1"
  shows "\<exists>space. calculate_discrete_space dims = Inr space \<and> py_distinct space"
proof -
  define pools where "pools = map (\<lambda>d. map (dim_value d) [0..<dim_size d]) dims"
  have tds: "total_dimspace dims = Inr pools"
    using assms(1) by (simp add: pools_def total_dimspace_discrete)
  have "\<forall>xs\<in>set pools. distinct xs"
    using assms(1) by (auto simp: pools_def list_all_iff distinct_dim_values)
  then have dist: "distinct (itertools_product pools)" by (rule distinct_itertools_product)
  have "\<forall>pool\<in>set pools. no_float pool"
    using assms(1) by (auto simp: pools_def list_all_iff no_float_dim_values)
  then have "\<forall>p\<in>set (itertools_product pools). no_float p"
    using itertools_product_items by blast
  with dist have "py_distinct (map PTuple (itertools_product pools))"
    by (rule py_distinct_exact)
  with tds assms(2) show ?thesis by (simp add: calculate_discrete_space_def)
qed

text \<open>
  In a discrete space that has not exactly one dimension, the check never answers with an
  evaluated point, and it raises the error of the exhausted space when every point of the
  space is evaluated.
\<close>

lemma dupe_check_fresh:
  assumes "list_all discrete_dim X_dim" and "length X_dim \<noteq> 1"
    and "dupe_check r collection x X_dim = Inr p"
    and "d \<in> set collection" and "doc_x d = Some xs"
  shows "\<not> seq_eq p (PTuple xs)"
proof -
  from calculate_discrete_space_py_distinct [OF assms(1,2)] obtain space where
    sp: "calculate_discrete_space X_dim = Inr space" "py_distinct space" by blast
  from assms(3) sp(1) obtain av where
    av: "remove_evaluated collection space = Inr av"
    by (cases "remove_evaluated collection space") (auto simp: dupe_check_def)
  from remove_evaluated_inv [OF sp(2) av] assms(4,5)
  have gone: "\<not> py_in (PTuple xs) av" by blast
  from assms(3) sp(1) av have res: "av \<noteq> []"
    "p = (if py_in x av then x else random_choice r av)"
    by (auto simp: dupe_check_def split: if_splits)
  show ?thesis
  proof
    assume eq: "seq_eq p (PTuple xs)"
    show False
    proof (cases "py_in x av")
      case True
      then obtain e where e: "e \<in> set av" "seq_eq e x" by (auto simp: py_in_iff)
      from True res(2) eq e(2) have "seq_eq e (PTuple xs)" using seq_eq_trans by simp
      with e(1) gone show False by (auto simp: py_in_iff)
    next
      case False
      with res have "p \<in> set av" by (simp add: random_choice_def)
      with eq gone show False by (auto simp: py_in_iff)
    qed
  qed
qed

lemma dupe_check_exhausted:
  assumes "list_all discrete_dim X_dim" and "length X_dim \<noteq> 1"
    and "calculate_discrete_space X_dim = Inr space"
    and "\<forall>d\<in>set collection. doc_x d \<noteq> None"
    and "\<forall>pt\<in>set space. \<exists>d\<in>set collection. \<exists>xs. doc_x d = Some xs \<and> seq_eq pt (PTuple xs)"
  shows "dupe_check r collection x X_dim = Inl (ValueError Space_exhausted)"
proof -
  from calculate_discrete_space_py_distinct [OF assms(1,2)] assms(3)
  have pd: "py_distinct space" by simp
  have "\<exists>av. remove_evaluated collection av0 = Inr av" for av0
    using assms(4) by (induction collection arbitrary: av0) auto
  then obtain av where av: "remove_evaluated collection space = Inr av" by blast
  from remove_evaluated_inv [OF pd av]
  have inv: "set av \<subseteq> set space"
    "\<forall>d\<in>set collection. \<forall>xs. doc_x d = Some xs \<longrightarrow> \<not> py_in (PTuple xs) av"
    by auto
  have "av = []"
  proof (rule ccontr)
    assume "av \<noteq> []"
    then obtain e where e: "e \<in> set av" by (cases av) auto
    with inv(1) assms(5) obtain d xs where
      "d \<in> set collection" "doc_x d = Some xs" "seq_eq e (PTuple xs)" by blast
    with inv(2) e show False by (auto simp: py_in_iff)
  qed
  with assms(3) av show ?thesis by (simp add: dupe_check_def)
qed

subsection \<open>Spaces of one dimension\<close>

text \<open>
  C1. Stated: the duplicate check never returns an evaluated point, and raises the error of
  the exhausted space when every point is evaluated, as for the space \<open>[(1, 1)]\<close> with the
  point \<open>(1,)\<close> evaluated. The code at that input returns \<open>[1]\<close>: the points of a space of one
  dimension are lists, the evaluated points are looked up as tuples, and a tuple equals no
  list, so none is ever removed.
\<close>

theorem dupe_check_single_dimension_returns_duplicate:
  "dupe_check r [evaluated 1 [PInt 1] y []] (PList [PInt 1]) [[PInt 1, PInt 1]]
     = Inr (PList [PInt 1])
   \<and> dupe_check r [evaluated 1 [PInt 1] y []] (PTuple [PInt 1]) [[PInt 1, PInt 1]]
     = Inr (PList [PInt 1])"
  by (simp add: dupe_check_def calculate_discrete_space_def evaluated_def random_choice_def)

section \<open>Properties of the inferred dimensions\<close>

subsection \<open>One observation\<close>

lemma single_inv_start: "single_inv z {} (map (\<lambda>v. Own v v) z, [])"
  by (simp add: single_inv_def)

lemma observe_single:
  assumes inv: "single_inv z {} st" and i: "i < length z"
  shows "\<exists>st'. observe (z ! i) i st = Inr st' \<and> single_inv z {} st'"
proof (cases "in_others (z ! i)")
  case True
  show ?thesis
  proof (cases "val_in (z ! i) (snd st)")
    case True
    with \<open>in_others (z ! i)\<close> inv show ?thesis by (simp add: observe_def)
  next
    case False
    have "single_inv z {} ((fst st)[i := Shared], snd st @ [z ! i])"
      using inv i True unfolding single_inv_def
      by (auto simp: nth_list_update)
    with False True show ?thesis by (simp add: observe_def)
  qed
next
  case False
  with inv i have own: "fst st ! i = Own (z ! i) (z ! i)"
    unfolding single_inv_def by auto
  then have "dim_get st i 0 = Inr (z ! i)" "dim_get st i 1 = Inr (z ! i)"
    by (simp_all add: dim_get_def)
  with False inv show ?thesis by (simp add: observe_def py_gt_def)
qed

lemma observe_row_single:
  assumes "single_inv z {} st" and "\<forall>i\<in>set is. i < length z"
  shows "\<exists>st'. observe_row z is st = Inr st' \<and> single_inv z {} st'"
  using assms
proof (induction "is" arbitrary: st)
  case Nil
  then show ?case by simp
next
  case (Cons i "is")
  from Cons.prems have i: "i < length z" by simp
  from observe_single [OF Cons.prems(1) i] obtain st1
    where st1: "observe (z ! i) i st = Inr st1" "single_inv z {} st1" by blast
  from Cons.IH [OF st1(2)] Cons.prems(2) obtain st'
    where "observe_row z is st1 = Inr st'" "single_inv z {} st'" by auto
  with st1 i show ?case by simp
qed

lemma expand_single:
  assumes inv: "single_inv z S st" and i: "i < length z" and iS: "i \<notin> S"
  shows "\<exists>st'. expand i st = Inr st' \<and> single_inv z (insert i S) st'"
proof -
  obtain dims cat_values where st: "st = (dims, cat_values)" by (cases st)
  from inv have len: "length dims = length z" and cats: "list_all in_others cat_values"
    by (simp_all add: single_inv_def st)
  from inv i iS consider
      (shared) "dims ! i = Shared" "in_others (z ! i)" "cat_values \<noteq> []"
    | (own) "dims ! i = Own (z ! i) (z ! i)"
    unfolding single_inv_def st by auto
  then show ?thesis
  proof cases
    case shared
    then obtain c cs where c: "cat_values = c # cs" by (cases cat_values) auto
    with cats have "in_others c" by simp
    then have "\<not> in_numbers c" by (cases c) (simp_all add: in_numbers_def)
    then have "expand i st = Inr st"
      using shared c by (simp add: expand_def dim_get_def st)
    moreover have "single_inv z (insert i S) st"
      using inv shared unfolding single_inv_def st by auto
    ultimately show ?thesis by blast
  next
    case own
    show ?thesis
    proof (cases "z ! i")
      case (PStr s)
      then have "expand i st = Inr st"
        using own by (simp add: expand_def dim_get_def st in_numbers_def)
      moreover have "single_inv z (insert i S) st"
        using inv own PStr unfolding single_inv_def st by auto
      ultimately show ?thesis by blast
    next
      case (PInt a)
      let ?st' = "(dims[i := Own (PInt (a - 1)) (PInt (a + 1))], cat_values)"
      have "expand i st = Inr ?st'"
        using own PInt i len
        by (simp add: expand_def dim_get_def st in_numbers_def py_gt_def)
      moreover have "single_inv z (insert i S) ?st'"
        using inv own PInt i len unfolding single_inv_def st
        by (auto simp: nth_list_update int_bounds_def)
      ultimately show ?thesis by blast
    next
      case (PFloat v)
      let ?lo = "v - 0.05 * v" and ?hi = "v + 0.05 * v"
      let ?st' = "(dims[i := (if ?lo > ?hi then Own (PFloat ?hi) (PFloat ?lo)
                            else Own (PFloat ?lo) (PFloat ?hi))], cat_values)"
      have "expand i st = Inr ?st'"
        using own PFloat i len
        by (simp add: expand_def dim_get_def st in_numbers_def py_gt_def)
      moreover have "single_inv z (insert i S) ?st'"
        using inv own PFloat i len unfolding single_inv_def st
        by (auto simp: nth_list_update float_bounds_def Let_def)
      ultimately show ?thesis by blast
    qed
  qed
qed

lemma expand_all_single:
  assumes "single_inv z S st" and "\<forall>i\<in>set is. i < length z" and "distinct is"
    and "set is \<inter> S = {}"
  shows "\<exists>st'. expand_all is st = Inr st' \<and> single_inv z (set is \<union> S) st'"
  using assms
proof (induction "is" arbitrary: st S)
  case Nil
  then show ?case by simp
next
  case (Cons i "is")
  from Cons.prems have i: "i < length z" "i \<notin> S" by auto
  from expand_single [OF Cons.prems(1) i] obtain st1
    where st1: "expand i st = Inr st1" "single_inv z (insert i S) st1" by blast
  have "\<forall>i\<in>set is. i < length z" "distinct is" "set is \<inter> insert i S = {}"
    using Cons.prems by auto
  from Cons.IH [OF st1(2) this] obtain st'
    where "expand_all is st1 = Inr st'" "single_inv z (set is \<union> insert i S) st'" by blast
  with st1 show ?case by auto
qed

lemma Z_dims_of_single:
  assumes i: "i < length z"
  shows "\<exists>ds. Z_dims_of [z] = Inr ds \<and> length ds = length z
           \<and> (in_numbers (z ! i) \<longrightarrow> ds ! i = final_dim (z ! i))"
proof -
  let ?st0 = "(map (\<lambda>v. Own v v) z, [])"
  from observe_row_single [OF single_inv_start, of "[0..<length z]" z] obtain st1
    where st1: "observe_row z [0..<length z] ?st0 = Inr st1" "single_inv z {} st1"
    by auto
  have len1: "length (fst st1) = length z" using st1(2) by (simp add: single_inv_def)
  from expand_all_single [OF st1(2), of "[0..<length z]"] obtain st2
    where st2: "expand_all [0..<length z] st1 = Inr st2"
      "single_inv z (set [0..<length z] \<union> {}) st2"
    by auto
  have len2: "length (fst st2) = length z" using st2(2) by (simp add: single_inv_def)
  let ?ds = "map (\<lambda>d. read_dim d (snd st2)) (fst st2)"
  have "Z_dims_of [z] = Inr ?ds"
    using st1(1) st2(1) len1 by (simp add: Z_dims_of_def)
  moreover have "length ?ds = length z" using len2 by simp
  moreover have "in_numbers (z ! i) \<longrightarrow> ?ds ! i = final_dim (z ! i)"
  proof
    assume num: "in_numbers (z ! i)"
    then have "\<not> in_others (z ! i)" by (cases "z ! i") (simp_all add: in_numbers_def)
    with st2(2) i have "read_dim (fst st2 ! i) (snd st2) = final_dim (z ! i)"
      unfolding single_inv_def by auto
    then show "?ds ! i = final_dim (z ! i)" using i len2 by simp
  qed
  ultimately show ?thesis by blast
qed

text \<open>
  C5. When the collection holds exactly one observation \<open>z\<close>, the inference succeeds, and a
  position with the float \<open>v\<close> gets the bounds \<open>v - 0.05 * v\<close> and \<open>v + 0.05 * v\<close>, swapped
  when the low one exceeds the high one, and a position with the integer \<open>v\<close> gets
  \<open>v - 1\<close> and \<open>v + 1\<close>.
\<close>

theorem Z_dims_single_observation:
  assumes "doc_z d = Some z" and "i < length z"
  shows "\<exists>ds. Z_dims [d] = Inr ds \<and> length ds = length z
           \<and> (\<forall>v. z ! i = PFloat v \<longrightarrow> ds ! i = float_bounds v)
           \<and> (\<forall>v. z ! i = PInt v \<longrightarrow> ds ! i = int_bounds v)"
proof -
  from Z_dims_of_single [OF assms(2)] obtain ds where
    ds: "Z_dims_of [z] = Inr ds" "length ds = length z"
        "in_numbers (z ! i) \<longrightarrow> ds ! i = final_dim (z ! i)"
    by blast
  have "Z_dims [d] = Inr ds" using assms(1) ds(1) by (simp add: Z_dims_def)
  moreover have "\<forall>v. z ! i = PFloat v \<longrightarrow> ds ! i = float_bounds v"
    using ds(3) by (simp add: in_numbers_def)
  moreover have "\<forall>v. z ! i = PInt v \<longrightarrow> ds ! i = int_bounds v"
    using ds(3) by (simp add: in_numbers_def)
  ultimately show ?thesis using ds(2) by blast
qed

theorem Z_dims_single_observation_witness:
  "doc_z \<lparr>doc_id = 1, doc_x = Some [PInt 7], doc_y = Some (PInt 0),
           doc_z = Some [PFloat (- 2), PInt 3], doc_x_new = None, doc_z_new = None\<rparr>
     = Some [PFloat (- 2), PInt 3]
   \<and> (\<exists>ds. Z_dims [\<lparr>doc_id = 1, doc_x = Some [PInt 7], doc_y = Some (PInt 0),
           doc_z = Some [PFloat (- 2), PInt 3], doc_x_new = None, doc_z_new = None\<rparr>] = Inr ds
         \<and> ds ! 0 = [PFloat (- 2.1), PFloat (- 1.9)]
         \<and> ds ! 1 = [PInt 2, PInt 4])"
proof -
  let ?z = "[PFloat (- 2), PInt 3]"
  let ?d = "\<lparr>doc_id = 1, doc_x = Some [PInt 7], doc_y = Some (PInt 0),
           doc_z = Some ?z, doc_x_new = None, doc_z_new = None\<rparr>"
  have z: "doc_z ?d = Some ?z" by simp
  from Z_dims_single_observation [OF z, of 0] obtain ds where
    ds: "Z_dims [?d] = Inr ds" "ds ! 0 = float_bounds (- 2)" by auto
  from Z_dims_single_observation [OF z, of 1] obtain ds' where
    ds': "Z_dims [?d] = Inr ds'" "ds' ! 1 = int_bounds 3" by auto
  have "ds' = ds" using ds(1) ds'(1) by simp
  then have "ds ! 1 = [PInt 2, PInt 4]" using ds'(2) by (simp add: int_bounds_def)
  moreover have "ds ! 0 = [PFloat (- 2.1), PFloat (- 1.9)]"
    using ds(2) by (simp add: float_bounds_def)
  ultimately show ?thesis using z ds(1) by blast
qed

text \<open>
  The second loop runs with any number of observations, its guard being always true: two
  integer observations 3 and 5 give the bounds 2 and 6.
\<close>

lemma Z_dims_of_two_observations:
  "Z_dims_of [[PInt 3], [PInt 5]] = Inr [[PInt 2, PInt 6]]"
  by (simp add: Z_dims_of_def observe_def expand_def dim_get_def in_numbers_def py_gt_def)

subsection \<open>Categorical positions\<close>

text \<open>One categorical position: the labels in the order they are first seen.\<close>

lemma Z_dims_of_one_categorical_position:
  "Z_dims_of [[PStr ''red''], [PStr ''blue''], [PStr ''red'']] = Inr [[PStr ''red'', PStr ''blue'']]"
  by (simp add: Z_dims_of_def observe_def expand_def dim_get_def in_numbers_def)

text \<open>
  C6. Stated: every categorical position holds exactly the labels seen at that position,
  without duplicates, also when two or more positions are categorical. With two
  categorical positions the one list \<^verbatim>\<open>cat_values\<close>
  collects the labels of both: for the observation \<open>["red", "big"]\<close> both positions get
  \<open>("red", "big")\<close>, and for \<open>["red", "red"]\<close> the second position keeps its initial pair
  \<open>("red", "red")\<close>, since its label is already in the list.
\<close>

theorem Z_dims_shared_categories:
  "Z_dims_of [[PStr ''red'', PStr ''big'']]
     = Inr [[PStr ''red'', PStr ''big''], [PStr ''red'', PStr ''big'']]
   \<and> Z_dims_of [[PStr ''red'', PStr ''red'']]
     = Inr [[PStr ''red''], [PStr ''red'', PStr ''red'']]"
  by (simp add: Z_dims_of_def observe_def expand_def dim_get_def in_numbers_def upt_rec)

section \<open>Properties of one iteration\<close>

subsection \<open>The history read\<close>

lemma gather_filter:
  "gather ds (X_tot, Y) =
     (X_tot @ map (\<lambda>d. the (doc_x d) @ the (doc_z d)) (filter has_xyz ds),
      Y @ map (\<lambda>d. the (doc_y d)) (filter has_xyz ds))"
  by (induction ds arbitrary: X_tot Y) simp_all

text \<open>
  C7. The history read takes a document if and only if it has all of \<open>x\<close>, \<open>y\<close> and \<open>z\<close>: its
  rows are those of the documents with the three fields, in the order of the collection,
  whatever that order is, and a document without one of them is passed over without an
  error.
\<close>

theorem gather_complete_documents:
  "gather collection ([], []) =
     (map (\<lambda>d. the (doc_x d) @ the (doc_z d)) (filter has_xyz collection),
      map (\<lambda>d. the (doc_y d)) (filter has_xyz collection))"
  by (simp add: gather_filter)

text \<open>
  The other two reads of the collection have no such guard: the inference of the auxiliary
  dimensions raises a KeyError on a document without \<open>z\<close>, the duplicate check on one
  without \<open>x\<close>.
\<close>

lemma unguarded_reads:
  "Z_dims [d\<lparr>doc_z := None\<rparr>] = Inl KeyError"
  "length X_dim \<noteq> 1 \<Longrightarrow> list_all discrete_dim X_dim \<Longrightarrow>
   dupe_check r [d\<lparr>doc_x := None\<rparr>] x X_dim = Inl KeyError"
proof -
  show "Z_dims [d\<lparr>doc_z := None\<rparr>] = Inl KeyError" by (simp add: Z_dims_def)
next
  assume "length X_dim \<noteq> 1" "list_all discrete_dim X_dim"
  then obtain space where "calculate_discrete_space X_dim = Inr space"
    using calculate_discrete_space_py_distinct by blast
  then show "dupe_check r [d\<lparr>doc_x := None\<rparr>] x X_dim = Inl KeyError"
    by (simp add: dupe_check_def)
qed

theorem gather_complete_documents_witness:
  "gather [evaluated 1 [PInt 1] (PInt 5) [PInt 7],
           (evaluated 2 [PInt 2] (PInt 6) [])\<lparr>doc_y := None\<rparr>,
           (evaluated 3 [PInt 3] (PInt 4) [PInt 9])\<lparr>doc_x_new := Some [PInt 1]\<rparr>] ([], [])
   = ([[PInt 1, PInt 7], [PInt 3, PInt 9]], [PInt 5, PInt 4])"
  using gather_complete_documents
    [of "[evaluated 1 [PInt 1] (PInt 5) [PInt 7],
          (evaluated 2 [PInt 2] (PInt 6) [])\<lparr>doc_y := None\<rparr>,
          (evaluated 3 [PInt 3] (PInt 4) [PInt 9])\<lparr>doc_x_new := Some [PInt 1]\<rparr>]"]
  by (simp add: has_xyz_def evaluated_def)

subsection \<open>The type checks\<close>

text \<open>
  C9. Stated: a list and a tuple of positional arguments pass the check alike. In the code
  a list passes and is handed on as it is; a tuple is rejected with the TypeError whose
  message asks for a list or a tuple, before anything is stored.
\<close>

theorem check_args_rejects_tuple:
  "check_args (t\<lparr>wf_creator_args := Some (ObjList xs)\<rparr>) = Inr (ObjList xs)
   \<and> check_args (t\<lparr>wf_creator_args := Some (ObjTuple xs)\<rparr>) = Inl (TypeError Args_not_a_list)
   \<and> run_task E r (t\<lparr>wf_creator_args := Some (ObjTuple xs)\<rparr>) s collection
       = (collection, Inl (TypeError Args_not_a_list))"
  by (simp add: run_task_def check_args_def)

theorem check_args_rejects_tuple_witness:
  "check_args ((checking_task [[PInt 1, PInt 5]])\<lparr>wf_creator_args := Some (ObjList [PInt 1, PInt 2])\<rparr>)
     = Inr (ObjList [PInt 1, PInt 2])
   \<and> check_args ((checking_task [[PInt 1, PInt 5]])\<lparr>wf_creator_args := Some (ObjTuple [PInt 1, PInt 2])\<rparr>)
     = Inl (TypeError Args_not_a_list)
   \<and> run_task (candidate_env (PList [PInt 3])) 0
         ((checking_task [[PInt 1, PInt 5]])\<lparr>wf_creator_args := Some (ObjTuple [PInt 1, PInt 2])\<rparr>)
         (point_spec [PInt 1]) []
       = ([], Inl (TypeError Args_not_a_list))"
  by (rule check_args_rejects_tuple
      [where t = "checking_task [[PInt 1, PInt 5]]" and xs = "[PInt 1, PInt 2]"
         and E = "candidate_env (PList [PInt 3])" and r = 0
         and s = "point_spec [PInt 1]" and collection = "[]"])

subsection \<open>The stored candidate\<close>

lemma doc_id_le_max: "d \<in> set ds \<Longrightarrow> doc_id d \<le> foldr max (map doc_id ds) 0"
  by (induction ds) auto

lemma new_id_fresh: "d \<in> set ds \<Longrightarrow> doc_id d \<noteq> new_id ds"
  using doc_id_le_max [of d ds] by (simp add: new_id_def)

lemma update_one_append:
  "\<forall>d'\<in>set ds. doc_id d' \<noteq> i \<Longrightarrow> doc_id d = i \<Longrightarrow>
   update_one i spec (ds @ [d]) = ds @ [dollar_set spec d]"
  by (induction ds) simp_all

lemma seq_items_slice_from [simp]: "seq_items (slice_from n s) = drop n (seq_items s)"
  by (cases s) simp_all

lemma seq_items_slice_to [simp]: "seq_items (slice_to n s) = take n (seq_items s)"
  by (cases s) simp_all

lemma propose_z_new:
  assumes "propose E r t x z c = Inr (x_new, z_new)"
  shows "\<exists>X_tot_dims x_tot_new.
           predict E t (fst (gather c ([], [])))
             (map (\<lambda>y. if max_on t = Some True then negate y else y) (snd (gather c ([], []))))
             X_tot_dims = Inr x_tot_new
         \<and> z_new = slice_from (length (seq_items x)) x_tot_new"
  using assms unfolding propose_def Let_def
  by (auto simp: on_ok_eq_Inr split_beta split: if_splits)

lemma run_task_success:
  assumes "run_task E r t s collection = (c', Inr a)"
  shows "\<exists>z x_new z_new.
      propose E r t (tw_x s) z
        (fst (store (no_fields\<lparr>f_z := Some z, f_y := Some (tw_y s), f_x := Some (seq_items (tw_x s))\<rparr>)
                False 0 collection)) = Inr (x_new, z_new)
    \<and> c' = fst (store (no_fields\<lparr>f_z_new := Some (seq_items z_new), f_x_new := Some (seq_items x_new)\<rparr>)
               True (new_id collection)
               (fst (store (no_fields\<lparr>f_z := Some z, f_y := Some (tw_y s), f_x := Some (seq_items (tw_x s))\<rparr>)
                False 0 collection)))
    \<and> optimization_id a = new_id collection"
  using assms unfolding run_task_def Let_def
  apply (auto simp: store_def insert_one_def split: sum.splits prod.splits)
  apply (intro exI conjI)
   apply assumption
  by (rule refl)

lemmas run_defs = run_task_def check_args_def check_kwargs_def database_def store_def
  insert_one_def new_id_def no_fields_def propose_def has_xyz_def predict_def
  dupe_check_def calculate_discrete_space_def random_choice_def dollar_set_def set_field_def
  candidate_env_def checking_task_def evaluated_def in_discrete_def

text \<open>
  C10. After a successful iteration the collection is the old one followed by the document
  of this iteration: its \<open>x\<close>, \<open>y\<close> and \<open>z\<close> are the ones stored at the start, and its \<open>z_new\<close>
  is the part of the output of the predictor from position \<open>len(x)\<close> on, whatever point the
  duplicate check has put into \<open>x_new\<close>.
\<close>

theorem run_task_frame:
  assumes "run_task E r t s collection = (c', Inr a)"
  shows "\<exists>z x_new X_tot_dims x_tot_new.
     (let stored = \<lparr>doc_id = new_id collection, doc_x = Some (seq_items (tw_x s)),
                     doc_y = Some (tw_y s), doc_z = Some z, doc_x_new = None, doc_z_new = None\<rparr>;
          history = gather (collection @ [stored]) ([], [])
      in predict E t (fst history)
           (map (\<lambda>y. if max_on t = Some True then negate y else y) (snd history))
           X_tot_dims = Inr x_tot_new
       \<and> c' = collection @
            [stored\<lparr>doc_x_new := Some x_new,
                    doc_z_new := Some (drop (length (seq_items (tw_x s))) (seq_items x_tot_new))\<rparr>]
       \<and> optimization_id a = new_id collection)"
proof -
  from run_task_success [OF assms] obtain z x_new z_new where
    p: "propose E r t (tw_x s) z
        (fst (store (no_fields\<lparr>f_z := Some z, f_y := Some (tw_y s), f_x := Some (seq_items (tw_x s))\<rparr>)
                False 0 collection)) = Inr (x_new, z_new)"
    and c': "c' = fst (store (no_fields\<lparr>f_z_new := Some (seq_items z_new), f_x_new := Some (seq_items x_new)\<rparr>)
               True (new_id collection)
               (fst (store (no_fields\<lparr>f_z := Some z, f_y := Some (tw_y s), f_x := Some (seq_items (tw_x s))\<rparr>)
                False 0 collection)))"
    and a: "optimization_id a = new_id collection"
    by blast
  let ?stored = "\<lparr>doc_id = new_id collection, doc_x = Some (seq_items (tw_x s)),
                     doc_y = Some (tw_y s), doc_z = Some z, doc_x_new = None, doc_z_new = None\<rparr>"
  have c1: "fst (store (no_fields\<lparr>f_z := Some z, f_y := Some (tw_y s), f_x := Some (seq_items (tw_x s))\<rparr>)
                False 0 collection) = collection @ [?stored]"
    by (simp add: store_def insert_one_def no_fields_def)
  from propose_z_new [OF p [unfolded c1]] obtain X_tot_dims x_tot_new where
    pr: "predict E t (fst (gather (collection @ [?stored]) ([], [])))
             (map (\<lambda>y. if max_on t = Some True then negate y else y)
                (snd (gather (collection @ [?stored]) ([], []))))
             X_tot_dims = Inr x_tot_new"
    and zn: "z_new = slice_from (length (seq_items (tw_x s))) x_tot_new"
    by blast
  have fresh: "\<forall>d'\<in>set collection. doc_id d' \<noteq> new_id collection"
    by (simp add: new_id_fresh)
  have "c' = update_one (new_id collection)
               (no_fields\<lparr>f_z_new := Some (seq_items z_new), f_x_new := Some (seq_items x_new)\<rparr>)
               (collection @ [?stored])"
    using c' unfolding c1 by (simp add: store_def)
  also have "\<dots> = collection @
      [dollar_set (no_fields\<lparr>f_z_new := Some (seq_items z_new), f_x_new := Some (seq_items x_new)\<rparr>) ?stored]"
    by (rule update_one_append [OF fresh]) simp
  also have "dollar_set (no_fields\<lparr>f_z_new := Some (seq_items z_new), f_x_new := Some (seq_items x_new)\<rparr>) ?stored
      = ?stored\<lparr>doc_x_new := Some (seq_items x_new),
                doc_z_new := Some (drop (length (seq_items (tw_x s))) (seq_items x_tot_new))\<rparr>"
    by (simp add: dollar_set_def no_fields_def set_field_def zn)
  finally have "c' = collection @ [?stored\<lparr>doc_x_new := Some (seq_items x_new),
                doc_z_new := Some (drop (length (seq_items (tw_x s))) (seq_items x_tot_new))\<rparr>]" .
  with pr a show ?thesis unfolding Let_def by blast
qed

theorem run_task_frame_witness:
  "run_task (candidate_env (PList [PInt 1, PInt 1, PFloat 0.7])) 0 aux_task
       (point_spec [PInt 1, PInt 1]) []
     = ([(evaluated 1 [PInt 1, PInt 1] (PInt 10) [PFloat 0.5])
           \<lparr>doc_x_new := Some [PInt 1, PInt 2], doc_z_new := Some [PFloat 0.7]\<rparr>],
        Inr \<lparr>additions = PTuple [PInt 1, PInt 2], optimization_id = 1\<rparr>)
   \<and> (\<exists>z x_new X_tot_dims x_tot_new.
     (let stored = \<lparr>doc_id = new_id [], doc_x = Some (seq_items (tw_x (point_spec [PInt 1, PInt 1]))),
                     doc_y = Some (tw_y (point_spec [PInt 1, PInt 1])), doc_z = Some z,
                     doc_x_new = None, doc_z_new = None\<rparr>;
          history = gather ([] @ [stored]) ([], [])
      in predict (candidate_env (PList [PInt 1, PInt 1, PFloat 0.7])) aux_task (fst history)
           (map (\<lambda>y. if max_on aux_task = Some True then negate y else y) (snd history))
           X_tot_dims = Inr x_tot_new
       \<and> [(evaluated 1 [PInt 1, PInt 1] (PInt 10) [PFloat 0.5])
           \<lparr>doc_x_new := Some [PInt 1, PInt 2], doc_z_new := Some [PFloat 0.7]\<rparr>] = [] @
            [stored\<lparr>doc_x_new := Some x_new,
                    doc_z_new := Some (drop (length (seq_items (tw_x (point_spec [PInt 1, PInt 1]))))
                                   (seq_items x_tot_new))\<rparr>]
       \<and> optimization_id \<lparr>additions = PTuple [PInt 1, PInt 2], optimization_id = 1\<rparr>
           = new_id []))"
proof -
  have h: "run_task (candidate_env (PList [PInt 1, PInt 1, PFloat 0.7])) 0 aux_task
       (point_spec [PInt 1, PInt 1]) []
     = ([(evaluated 1 [PInt 1, PInt 1] (PInt 10) [PFloat 0.5])
           \<lparr>doc_x_new := Some [PInt 1, PInt 2], doc_z_new := Some [PFloat 0.7]\<rparr>],
        Inr \<lparr>additions = PTuple [PInt 1, PInt 2], optimization_id = 1\<rparr>)"
    by (simp add: run_defs aux_task_def point_spec_def upto_rec1 Z_dims_def Z_dims_of_def
        observe_def expand_def dim_get_def in_numbers_def py_gt_def)
  show ?thesis by (rule conjI [OF h run_task_frame [OF h]])
qed

text \<open>
  C2. Stated: the iteration returns the candidate of the predictor when it is not yet
  evaluated, and else a point that is not yet evaluated. In the code the duplicate check is called with the evaluated point \<open>x\<close> and not with the
  candidate: for the space \<open>[(1, 5)]\<close>, the point \<open>[1]\<close> just evaluated and the new candidate
  \<open>[3]\<close>, the iteration stores and returns \<open>[1]\<close>. And for the space \<open>[(1, 2)]\<close> with \<open>[1]\<close>
  evaluated, the check called with \<open>[1]\<close> answers \<open>[1]\<close> and not the remaining point \<open>[2]\<close>.
\<close>

theorem run_task_ignores_candidate:
  "run_task (candidate_env (PList [PInt 3])) r (checking_task [[PInt 1, PInt 5]])
       (point_spec [PInt 1]) []
     = ([(evaluated 1 [PInt 1] (PInt 10) [])\<lparr>doc_x_new := Some [PInt 1], doc_z_new := Some []\<rparr>],
        Inr \<lparr>additions = PList [PInt 1], optimization_id = 1\<rparr>)
   \<and> dupe_check r [evaluated 1 [PInt 1] (PInt 10) []] (PList [PInt 1]) [[PInt 1, PInt 2]]
       = Inr (PList [PInt 1])"
  by (simp add: run_defs point_spec_def upto_rec1)

section \<open>Properties of the queries of the database manager\<close>

lemma find_value_carried:
  "carries var d \<Longrightarrow> find_value var d = Inr (value_of var d, the (input_side d))"
  by (auto simp: carries_def find_value_def value_of_def split: option.splits)

lemma find_value_missing: "\<not> carries var d \<Longrightarrow> find_value var d = Inl KeyError"
  by (auto simp: carries_def find_value_def split: option.splits)

lemma total_list_carried:
  "list_all (carries var) ds \<Longrightarrow> total_list var ds acc = Inr (acc @ map (value_of var) ds)"
  by (induction ds arbitrary: acc) (simp_all add: find_value_carried)

lemma total_list_missing:
  "\<not> list_all (carries var) ds \<Longrightarrow> total_list var ds acc = Inl KeyError"
proof (induction ds arbitrary: acc)
  case Nil
  then show ?case by simp
next
  case (Cons d ds)
  show ?case
  proof (cases "carries var d")
    case True
    with Cons show ?thesis by (simp add: find_value_carried)
  next
    case False
    then show ?thesis by (simp add: find_value_missing)
  qed
qed

lemma py_add_no_KeyError: "py_add a b \<noteq> Inl KeyError"
  by (cases a; cases b) simp_all

lemma py_sum_no_KeyError: "py_sum vs acc \<noteq> Inl KeyError"
proof (induction vs arbitrary: acc)
  case Nil
  then show ?case by simp
next
  case (Cons v vs)
  show ?case
  proof (cases "py_add acc v")
    case (Inl e)
    with py_add_no_KeyError [of acc v] show ?thesis by simp
  next
    case (Inr s)
    with Cons.IH [of s] show ?thesis by simp
  qed
qed

lemma get_avg_no_KeyError:
  assumes "list_all (carries var) ds"
  shows "get_avg var ds \<noteq> Inl KeyError"
proof -
  let ?vs = "map (value_of var) ds"
  have tl: "total_list var ds [] = Inr ?vs"
    using total_list_carried [OF assms, of "[]"] by simp
  show ?thesis
  proof (cases "py_sum ?vs (PInt 0)")
    case (Inl e)
    then have "e \<noteq> KeyError" using py_sum_no_KeyError [of ?vs "PInt 0"] by auto
    with Inl tl show ?thesis
      by (auto simp: get_avg_def split: list.splits)
  next
    case (Inr s)
    with tl show ?thesis
      by (auto simp: get_avg_def split: list.splits pyval.splits)
  qed
qed

lemma optima_scan_carried:
  "list_all (carries var) ds \<Longrightarrow> min_or_max = ''min'' \<or> min_or_max = ''max'' \<or> again = Inr () \<Longrightarrow>
   \<exists>st'. optima_scan var min_or_max again ds st = Inr st'"
proof (induction ds arbitrary: st)
  case Nil
  show ?case by (rule exI [of _ st]) simp
next
  case (Cons d ds)
  from Cons.prems(1) have fv: "find_value var d = Inr (value_of var d, the (input_side d))"
    by (simp add: find_value_carried)
  from Cons.prems have ih: "\<And>st. \<exists>st'. optima_scan var min_or_max again ds st = Inr st'"
    using Cons.IH by simp
  show ?case
  proof (cases "min_or_max = ''min'' \<or> min_or_max = ''max''")
    case True
    with fv ih [of "see min_or_max (value_of var d) (the (input_side d)) st"] show ?thesis
      by auto
  next
    case False
    with Cons.prems(2) have "again = Inr ()" by simp
    with fv False ih [of st] show ?thesis by auto
  qed
qed

lemma optima_scan_missing:
  "\<not> list_all (carries var) ds \<Longrightarrow> again = Inr () \<or> again = Inl KeyError \<Longrightarrow>
   optima_scan var min_or_max again ds st = Inl KeyError"
proof (induction ds arbitrary: st)
  case Nil
  then show ?case by simp
next
  case (Cons d ds)
  show ?case
  proof (cases "carries var d")
    case False
    then show ?thesis by (simp add: find_value_missing)
  next
    case True
    then have fv: "find_value var d = Inr (value_of var d, the (input_side d))"
      by (rule find_value_carried)
    from True Cons.prems(1) have rest: "\<not> list_all (carries var) ds" by simp
    have ih: "\<And>st. optima_scan var min_or_max again ds st = Inl KeyError"
      using Cons.IH [OF rest Cons.prems(2)] .
    from Cons.prems(2) show ?thesis
    proof
      assume "again = Inr ()"
      with fv ih show ?thesis by simp
    next
      assume "again = Inl KeyError"
      with fv ih show ?thesis by simp
    qed
  qed
qed

lemma get_optima_carried:
  assumes "list_all (carries var) ds"
  shows "\<exists>res. get_optima var min_or_max ds = Inr res"
proof -
  from optima_scan_carried [OF assms, of "''min''" "Inr ()" "(None, None, Map.empty)"]
  obtain st0 where "optima_scan var ''min'' (Inr ()) ds (None, None, Map.empty) = Inr st0"
    by auto
  then have again: "on_ok (get_optima_default var ds) (\<lambda>_. Inr ()) = Inr ()"
    by (simp add: get_optima_default_def split_beta)
  from optima_scan_carried [OF assms, of min_or_max "Inr ()" "(None, None, Map.empty)"]
  obtain st where "optima_scan var min_or_max (Inr ()) ds (None, None, Map.empty) = Inr st"
    by auto
  then show ?thesis
    by (simp add: get_optima_def again split_beta)
qed

lemma get_optima_missing:
  assumes "\<not> list_all (carries var) ds"
  shows "get_optima var min_or_max ds = Inl KeyError"
proof -
  have "optima_scan var ''min'' (Inr ()) ds (None, None, Map.empty) = Inl KeyError"
    using assms by (rule optima_scan_missing) simp
  then have again: "on_ok (get_optima_default var ds) (\<lambda>_. Inr ()) = Inl KeyError"
    by (simp add: get_optima_default_def)
  have "optima_scan var min_or_max (Inl KeyError) ds (None, None, Map.empty) = Inl KeyError"
    using assms by (rule optima_scan_missing) simp
  then show ?thesis by (simp add: get_optima_def again)
qed

text \<open>
  Each of the three queries raises the KeyError exactly when some record does not answer
  for the key: the test is made for every record inside the loop.
\<close>

lemma queries_raise_iff_some_record_lacks_key:
  "(get_param var collection = Inl KeyError \<longleftrightarrow> \<not> list_all (carries var) collection)
   \<and> (get_avg var collection = Inl KeyError \<longleftrightarrow> \<not> list_all (carries var) collection)
   \<and> (get_optima var min_or_max collection = Inl KeyError
        \<longleftrightarrow> \<not> list_all (carries var) collection)"
proof (cases "list_all (carries var) collection")
  case True
  have "get_param var collection = Inr (map (value_of var) collection)"
    using total_list_carried [OF True, of "[]"] by (simp add: get_param_def)
  moreover have "get_avg var collection \<noteq> Inl KeyError"
    using True by (rule get_avg_no_KeyError)
  moreover obtain res where "get_optima var min_or_max collection = Inr res"
    using get_optima_carried [OF True] by blast
  ultimately show ?thesis using True by simp
next
  case False
  have "get_param var collection = Inl KeyError"
    using False by (simp add: get_param_def total_list_missing)
  moreover have "get_avg var collection = Inl KeyError"
    using False by (simp add: get_avg_def total_list_missing)
  moreover have "get_optima var min_or_max collection = Inl KeyError"
    using False by (rule get_optima_missing)
  ultimately show ?thesis using False by simp
qed

lemmas query_defs = get_param_def get_avg_def get_optima_def get_optima_default_def
  find_value_def with_input_def with_output_def without_keys_def

text \<open>
  C8. Stated: the queries look at the input side first and then at the output side, fail
  with the error of the missing key exactly when the key is absent from both sides of every
  record, and return the aggregate over the records that carry the key when at least one
  does. For three records that all carry the key \<open>a\<close> the code returns the values, their
  average, and the least and the greatest value with the input side of its record. With one
  more record that has no key, the three queries raise the KeyError, whose message says
  that the key was not found anywhere in the collection, although two records carry it.
\<close>

theorem queries_raise_though_key_is_carried:
  "get_param ''a'' [with_input ''a'' (PInt 3), with_output ''a'' (PInt 1), with_input ''a'' (PInt 2)]
     = Inr [PInt 3, PInt 1, PInt 2]
   \<and> get_avg ''a'' [with_input ''a'' (PInt 3), with_output ''a'' (PInt 1), with_input ''a'' (PInt 2)]
     = Inr (PInt 2)
   \<and> get_optima ''a'' ''min''
       [with_input ''a'' (PInt 3), with_output ''a'' (PInt 1), with_input ''a'' (PInt 2)]
     = Inr (Some (Some (PInt 1), Map.empty))
   \<and> get_optima ''a'' ''max''
       [with_input ''a'' (PInt 3), with_output ''a'' (PInt 1), with_input ''a'' (PInt 2)]
     = Inr (Some (Some (PInt 3), [''a'' \<mapsto> PInt 3]))
   \<and> get_param ''a''
       [with_input ''a'' (PInt 3), without_keys, with_output ''a'' (PInt 1), with_input ''a'' (PInt 2)]
     = Inl KeyError
   \<and> get_avg ''a''
       [with_input ''a'' (PInt 3), without_keys, with_output ''a'' (PInt 1), with_input ''a'' (PInt 2)]
     = Inl KeyError
   \<and> get_optima ''a'' ''min''
       [with_input ''a'' (PInt 3), without_keys, with_output ''a'' (PInt 1), with_input ''a'' (PInt 2)]
     = Inl KeyError
   \<and> get_optima ''a'' ''max''
       [with_input ''a'' (PInt 3), without_keys, with_output ''a'' (PInt 1), with_input ''a'' (PInt 2)]
     = Inl KeyError"
  by (simp add: query_defs py_ge_def)

end
